theory Spec2Isabelle
  imports Complex_Main
begin

section \<open>Workflow networks: data model\<close>

text \<open>
  The development embeds the package \<^verbatim>\<open>repoa.components.network_handler\<close>:
  \<^verbatim>\<open>constants.py\<close>, \<^verbatim>\<open>node.py\<close>, \<^verbatim>\<open>edge.py\<close>, \<^verbatim>\<open>workflow_network.py\<close> and
  \<^verbatim>\<open>execution_engine.py\<close>.

  Python values that travel in the state are a datatype; a \<^verbatim>\<open>StateDict\<close> is an insertion-ordered
  association list, as Python dictionaries are. Node callables and edge conditions are
  functions of the state that either return a value or raise: they are pure (they do not
  mutate the mapping they receive).
\<close>

datatype pyval =
    PNone
  | PBool bool
  | PInt int
  | PStr string
  | PList "pyval list"
  | PDict "(string \<times> pyval) list"

type_synonym StateDict = "(string \<times> pyval) list"

text \<open>
  Exceptions, by class, with the message that \<^verbatim>\<open>str(e)\<close> returns. \<^verbatim>\<open>ValueError\<close> and \<^verbatim>\<open>RuntimeError\<close>
  are subclasses of \<^verbatim>\<open>Exception\<close>; \<^verbatim>\<open>SystemExit\<close> and \<^verbatim>\<open>KeyboardInterrupt\<close> derive from
  \<^verbatim>\<open>BaseException\<close> only.
\<close>

datatype exn =
    ValueError string
  | RuntimeError string
  | Exception string
  | SystemExit string
  | KeyboardInterrupt string

fun str :: "exn \<Rightarrow> string" where
  "str (ValueError m) = m"
| "str (RuntimeError m) = m"
| "str (Exception m) = m"
| "str (SystemExit m) = m"
| "str (KeyboardInterrupt m) = m"

text \<open>\<^verbatim>\<open>isinstance(e, Exception)\<close>: what a clause \<^verbatim>\<open>except Exception\<close> catches.\<close>

fun is_Exception :: "exn \<Rightarrow> bool" where
  "is_Exception (ValueError m) = True"
| "is_Exception (RuntimeError m) = True"
| "is_Exception (Exception m) = True"
| "is_Exception (SystemExit m) = False"
| "is_Exception (KeyboardInterrupt m) = False"

subsection \<open>constants.py\<close>

definition START :: string where
  "START = ''__start__''"

definition END :: string where
  "END = ''__end__''"

definition MAX_ITERATIONS :: int where
  "MAX_ITERATIONS = 1000"

subsection \<open>Dictionaries\<close>

text \<open>\<^verbatim>\<open>d[k] = v\<close>: an existing key keeps its position, a new key goes last.\<close>

fun dict_set :: "string \<Rightarrow> pyval \<Rightarrow> StateDict \<Rightarrow> StateDict" where
  "dict_set k v [] = [(k, v)]"
| "dict_set k v (p # ps) = (if fst p = k then (k, v) # ps else p # dict_set k v ps)"

text \<open>\<^verbatim>\<open>d.update(u)\<close>: the items of \<open>u\<close> are stored one after the other.\<close>

fun dict_update :: "StateDict \<Rightarrow> StateDict \<Rightarrow> StateDict" where
  "dict_update d [] = d"
| "dict_update d ((k, v) # u) = dict_update (dict_set k v d) u"

text \<open>\<^verbatim>\<open>d.get(k)\<close>.\<close>

definition dict_get :: "StateDict \<Rightarrow> string \<Rightarrow> pyval option" where
  "dict_get d k = map_of d k"

text \<open>Truthiness of an \<^verbatim>\<open>Optional[str]\<close>: \<^verbatim>\<open>None\<close> and the empty string are false.\<close>

fun truthy :: "string option \<Rightarrow> bool" where
  "truthy None = False"
| "truthy (Some t) = (t \<noteq> [])"

subsection \<open>node.py\<close>

type_synonym NodeFunction = "StateDict \<Rightarrow> exn + pyval"

record Node =
  node_id :: string
  func :: "NodeFunction option"
  description :: "string option"
  timeout :: "real option"
  retry_count :: int
  is_agent :: bool

text \<open>\<^verbatim>\<open>Node.__call__\<close>: the update mapping of one invocation, or the callable's exception.\<close>

definition node_call :: "Node \<Rightarrow> StateDict \<Rightarrow> exn + StateDict" where
  "node_call nd state =
     (case func nd of
        None \<Rightarrow> Inr []
      | Some f \<Rightarrow>
          (case f state of
             Inl e \<Rightarrow> Inl e
           | Inr PNone \<Rightarrow> Inr []
           | Inr (PDict d) \<Rightarrow> Inr d
           | Inr result \<Rightarrow> Inr [(''result'', result)]))"

subsection \<open>edge.py\<close>

type_synonym EdgeCondition = "StateDict \<Rightarrow> exn + string"

record Edge =
  source_node :: string
  target_node :: "string option"
  edge_description :: "string option"
  condition :: "EdgeCondition option"
  is_conditional :: bool

text \<open>\<^verbatim>\<open>Edge.__init__\<close>: \<open>is_conditional\<close> is computed from the condition.\<close>

definition mk_Edge :: "string \<Rightarrow> string option \<Rightarrow> string option \<Rightarrow> EdgeCondition option \<Rightarrow> Edge" where
  "mk_Edge src tgt descr cond =
     \<lparr>source_node = src, target_node = tgt, edge_description = descr,
      condition = cond, is_conditional = (cond \<noteq> None)\<rparr>"

text \<open>\<^verbatim>\<open>Edge.route\<close>.\<close>

definition route :: "Edge \<Rightarrow> StateDict \<Rightarrow> exn + string" where
  "route e state =
     (case condition e of
        Some c \<Rightarrow> c state
      | None \<Rightarrow>
          (if truthy (target_node e) then Inr (the (target_node e))
           else Inl (RuntimeError (''Edge from '' @ source_node e @ '' has no routing target''))))"

text \<open>An \<^verbatim>\<open>EdgeSet\<close> is the list of its edges, in insertion order.\<close>

type_synonym EdgeSet = "Edge list"

definition add_edge_set :: "EdgeSet \<Rightarrow> Edge \<Rightarrow> EdgeSet" where
  "add_edge_set es e = es @ [e]"

definition get_edges_from :: "EdgeSet \<Rightarrow> string \<Rightarrow> Edge list" where
  "get_edges_from es src = filter (\<lambda>e. source_node e = src) es"

text \<open>The two \<^verbatim>\<open>for\<close> loops of \<^verbatim>\<open>get_next_node\<close>.\<close>

fun first_conditional :: "Edge list \<Rightarrow> Edge option" where
  "first_conditional [] = None"
| "first_conditional (e # es) = (if is_conditional e then Some e else first_conditional es)"

fun first_simple :: "Edge list \<Rightarrow> string option" where
  "first_simple [] = None"
| "first_simple (e # es) =
     (if \<not> is_conditional e \<and> truthy (target_node e) then target_node e else first_simple es)"

definition get_next_node :: "EdgeSet \<Rightarrow> string \<Rightarrow> StateDict \<Rightarrow> exn + string option" where
  "get_next_node es src state =
     (let edges_from = get_edges_from es src in
      if edges_from = [] then Inr None
      else
        (case first_conditional edges_from of
           Some e \<Rightarrow> (case route e state of Inl x \<Rightarrow> Inl x | Inr t \<Rightarrow> Inr (Some t))
         | None \<Rightarrow> Inr (first_simple edges_from)))"

subsection \<open>workflow\_network.py: the builder\<close>

record WorkflowNetwork =
  graph_id :: string
  nodes :: "string \<Rightarrow> Node option"
  edges :: EdgeSet
  entry_node :: string
  exit_node :: string
  network_description :: "string option"

text \<open>\<^verbatim>\<open>WorkflowNetwork(graph_id=...)\<close> with the field defaults.\<close>

definition new_network :: "string \<Rightarrow> WorkflowNetwork" where
  "new_network gid =
     \<lparr>graph_id = gid, nodes = Map.empty, edges = [], entry_node = START, exit_node = END,
      network_description = None\<rparr>"

text \<open>\<^verbatim>\<open>Node.__init__\<close> with its defaults, as \<^verbatim>\<open>add_node\<close> calls it.\<close>

definition mk_Node :: "string \<Rightarrow> NodeFunction option \<Rightarrow> string option \<Rightarrow> real option \<Rightarrow> Node" where
  "mk_Node nid f descr tmo =
     \<lparr>node_id = nid, func = f, description = descr, timeout = tmo,
      retry_count = 0, is_agent = False\<rparr>"

definition add_node ::
  "WorkflowNetwork \<Rightarrow> string \<Rightarrow> NodeFunction \<Rightarrow> string option \<Rightarrow> real option \<Rightarrow> WorkflowNetwork" where
  "add_node net nid f descr tmo = net\<lparr>nodes := (nodes net)(nid \<mapsto> mk_Node nid (Some f) descr tmo)\<rparr>"

definition add_edge :: "WorkflowNetwork \<Rightarrow> string \<Rightarrow> string \<Rightarrow> string option \<Rightarrow> WorkflowNetwork" where
  "add_edge net source target descr =
     net\<lparr>edges := add_edge_set (edges net) (mk_Edge source (Some target) descr None)\<rparr>"

text \<open>The closure \<^verbatim>\<open>routed_condition\<close> that \<^verbatim>\<open>add_conditional_edge\<close> builds.\<close>

definition routed_condition :: "EdgeCondition \<Rightarrow> (string \<Rightarrow> string option) \<Rightarrow> EdgeCondition" where
  "routed_condition cond target_map state =
     (case cond state of
        Inl e \<Rightarrow> Inl e
      | Inr result \<Rightarrow>
          Inr (case target_map result of
                 Some t \<Rightarrow> t
               | None \<Rightarrow> (case target_map ''default'' of Some d \<Rightarrow> d | None \<Rightarrow> END)))"

definition add_conditional_edge ::
  "WorkflowNetwork \<Rightarrow> string \<Rightarrow> EdgeCondition \<Rightarrow> (string \<Rightarrow> string option) \<Rightarrow> string option
     \<Rightarrow> WorkflowNetwork" where
  "add_conditional_edge net source cond target_map descr =
     net\<lparr>edges := add_edge_set (edges net)
        (mk_Edge source None descr (Some (routed_condition cond target_map)))\<rparr>"

definition set_entry_point :: "WorkflowNetwork \<Rightarrow> string \<Rightarrow> WorkflowNetwork" where
  "set_entry_point net nid = net\<lparr>entry_node := nid\<rparr>"

definition set_finish_point :: "WorkflowNetwork \<Rightarrow> string \<Rightarrow> WorkflowNetwork" where
  "set_finish_point net nid = net\<lparr>exit_node := nid\<rparr>"

text \<open>
  \<^verbatim>\<open>validate\<close>: the loop over the edges checks the source, then the target, of one edge after
  the other and raises at the first check that fails. \<open>bad_source\<close> and \<open>bad_target\<close> are the
  conditions of its two \<^verbatim>\<open>if\<close> statements; the target is only looked up when it is truthy.
\<close>

definition bad_source :: "(string \<Rightarrow> Node option) \<Rightarrow> Edge \<Rightarrow> bool" where
  "bad_source ns e = (source_node e \<noteq> START \<and> ns (source_node e) = None)"

definition bad_target :: "(string \<Rightarrow> Node option) \<Rightarrow> Edge \<Rightarrow> bool" where
  "bad_target ns e =
     (truthy (target_node e) \<and> the (target_node e) \<noteq> END \<and> ns (the (target_node e)) = None)"

fun validate_edges :: "(string \<Rightarrow> Node option) \<Rightarrow> Edge list \<Rightarrow> exn + unit" where
  "validate_edges ns [] = Inr ()"
| "validate_edges ns (e # es) =
     (if bad_source ns e
      then Inl (ValueError (''Edge source '' @ source_node e @ '' not found''))
      else if bad_target ns e
      then Inl (ValueError (''Edge target '' @ the (target_node e) @ '' not found''))
      else validate_edges ns es)"

definition validate :: "WorkflowNetwork \<Rightarrow> exn + bool" where
  "validate net =
     (if entry_node net \<noteq> START \<and> nodes net (entry_node net) = None
      then Inl (ValueError (''Entry point '' @ entry_node net @ '' not found''))
      else if exit_node net \<noteq> END \<and> nodes net (exit_node net) = None
      then Inl (ValueError (''Exit point '' @ exit_node net @ '' not found''))
      else (case validate_edges (nodes net) (edges net) of
              Inl e \<Rightarrow> Inl e
            | Inr _ \<Rightarrow> Inr True))"

section \<open>execution\_engine.py\<close>

record ExecutionStep =
  step_node_id :: string
  timestamp :: real
  state_before :: "StateDict option"
  state_after :: "StateDict option"
  step_error :: "string option"
  duration_ms :: real

record ExecutionResult =
  final_state :: StateDict
  steps :: "ExecutionStep list"
  total_duration_ms :: real
  iterations :: int
  error :: "string option"
  completed :: bool

text \<open>
  The local variables of a traversal. \<open>invoked\<close> is not a variable of the program: it logs
  every call of a node callable, in order, with the exception when the call raised, so that
  statements about which nodes were invoked can be made.
\<close>

record walk =
  current_state :: StateDict
  current_node :: string
  invoked :: "(string \<times> exn option) list"

text \<open>
  \<^verbatim>\<open>execute\<close> also accumulates the steps and reads the clock. The clock is a parameter: the
  \<open>k\<close>-th reading taken during a call (\<^verbatim>\<open>time.time()\<close>, \<^verbatim>\<open>datetime.now()\<close>) is \<open>clock k\<close>, a real
  number of seconds; \<open>clock_reads\<close> counts the readings taken so far.
\<close>

record exec_locals = walk +
  step_list :: "ExecutionStep list"
  clock_reads :: nat

text \<open>How one pass through a loop body ends, and how the loop is left.\<close>

datatype 'a ctl = Continue 'a | Break 'a | Raise 'a exn

datatype loop_exit = Finished | Broke | Raised exn

text \<open>
  Lines 95 to 119 of \<^verbatim>\<open>execute\<close>, for a node of the table: the step is created, the node is
  called, and the step is appended. When the call raises an \<^verbatim>\<open>Exception\<close>, the error is stored
  on the step and a \<^verbatim>\<open>RuntimeError\<close> is raised before the \<^verbatim>\<open>append\<close>; any other exception passes
  the \<^verbatim>\<open>except Exception\<close> clause untouched. The result carries the step as the local variable
  holds it at that moment.
\<close>

definition execute_node ::
  "Node \<Rightarrow> (nat \<Rightarrow> real) \<Rightarrow> real \<Rightarrow> exec_locals \<Rightarrow> (exec_locals \<times> ExecutionStep \<times> exn) + exec_locals" where
  "execute_node node clock step_start l =
     (let step = \<lparr>step_node_id = current_node l, timestamp = clock (clock_reads l),
                  state_before = Some (current_state l), state_after = None,
                  step_error = None, duration_ms = 0\<rparr>;
          t = clock_reads l + 1
      in case node_call node (current_state l) of
           Inr updates \<Rightarrow>
             (let state' = (if updates \<noteq> [] then dict_update (current_state l) updates
                            else current_state l);
                  step' = step\<lparr>state_after := Some state',
                               duration_ms := (clock t - step_start) * 1000\<rparr>
              in Inr (l\<lparr>current_state := state',
                         invoked := invoked l @ [(current_node l, None)],
                         step_list := step_list l @ [step'],
                         clock_reads := t + 1\<rparr>))
         | Inl e \<Rightarrow>
             (if is_Exception e then
                (let step' = step\<lparr>step_error := Some (str e),
                                  duration_ms := (clock t - step_start) * 1000\<rparr>
                 in Inl (l\<lparr>invoked := invoked l @ [(current_node l, Some e)],
                            clock_reads := t + 1\<rparr>,
                         step',
                         RuntimeError (''Node '' @ current_node l @ '' failed: '' @ str e)))
              else
                Inl (l\<lparr>invoked := invoked l @ [(current_node l, Some e)], clock_reads := t\<rparr>,
                     step, e)))"

text \<open>The body of the \<^verbatim>\<open>while\<close> loop of \<^verbatim>\<open>execute\<close>, after \<^verbatim>\<open>iteration += 1\<close>.\<close>

definition execute_body :: "WorkflowNetwork \<Rightarrow> (nat \<Rightarrow> real) \<Rightarrow> exec_locals \<Rightarrow> exec_locals ctl" where
  "execute_body net clock l =
     (let step_start = clock (clock_reads l);
          l1 = l\<lparr>clock_reads := clock_reads l + 1\<rparr>
      in if current_node l = START then
           (case get_next_node (edges net) START (current_state l) of
              Inl e \<Rightarrow> Raise l1 e
            | Inr next_node \<Rightarrow>
                (if truthy next_node then Continue (l1\<lparr>current_node := the next_node\<rparr>)
                 else Break l1))
         else
           (case (case nodes net (current_node l) of
                    Some node \<Rightarrow> execute_node node clock step_start l1
                  | None \<Rightarrow> Inr l1) of
              Inl (l2, step, e) \<Rightarrow> Raise l2 e
            | Inr l2 \<Rightarrow>
                (case get_next_node (edges net) (current_node l) (current_state l2) of
                   Inl e \<Rightarrow> Raise l2 e
                 | Inr None \<Rightarrow> Break l2
                 | Inr (Some next_node) \<Rightarrow> Continue (l2\<lparr>current_node := next_node\<rparr>))))"

text \<open>
  The \<^verbatim>\<open>while\<close> loop: the result is the locals and the iteration count when the loop is left,
  and whether it was left by its condition, by \<^verbatim>\<open>break\<close> or by an exception.
\<close>

function execute_loop ::
  "WorkflowNetwork \<Rightarrow> (nat \<Rightarrow> real) \<Rightarrow> int \<Rightarrow> int \<Rightarrow> exec_locals \<Rightarrow> exec_locals \<times> int \<times> loop_exit" where
  "execute_loop net clock max_iterations iteration l =
     (if current_node l \<noteq> exit_node net \<and> iteration < max_iterations then
        (case execute_body net clock l of
           Continue l' \<Rightarrow> execute_loop net clock max_iterations (iteration + 1) l'
         | Break l' \<Rightarrow> (l', iteration + 1, Broke)
         | Raise l' e \<Rightarrow> (l', iteration + 1, Raised e))
      else (l, iteration, Finished))"
  by pat_completeness auto
termination
  by (relation "measure (\<lambda>(net, clock, max_iterations, iteration, l). nat (max_iterations - iteration))")
     auto

declare execute_loop.simps [simp del]

text \<open>The locals before the loop (\<^verbatim>\<open>start_time\<close> is the reading \<open>clock 0\<close>).\<close>

definition execute_init :: "WorkflowNetwork \<Rightarrow> StateDict \<Rightarrow> exec_locals" where
  "execute_init net initial_state =
     \<lparr>current_state = initial_state, current_node = entry_node net, invoked = [],
      step_list = [], clock_reads = 1\<rparr>"

definition execute_run ::
  "WorkflowNetwork \<Rightarrow> (nat \<Rightarrow> real) \<Rightarrow> StateDict \<Rightarrow> int \<Rightarrow> exec_locals \<times> int \<times> loop_exit" where
  "execute_run net clock initial_state max_iterations =
     execute_loop net clock max_iterations 0 (execute_init net initial_state)"

text \<open>
  The two \<^verbatim>\<open>return\<close> statements: after the loop, and in the outer \<^verbatim>\<open>except Exception\<close> clause.
  An exception that this clause does not catch leaves \<^verbatim>\<open>execute\<close> and reaches the caller.
\<close>

fun execute_result ::
  "WorkflowNetwork \<Rightarrow> (nat \<Rightarrow> real) \<Rightarrow> exec_locals \<times> int \<times> loop_exit \<Rightarrow> exn + ExecutionResult" where
  "execute_result net clock (l, iteration, Raised e) =
     (if is_Exception e then
        Inr \<lparr>final_state = current_state l, steps = step_list l,
             total_duration_ms = (clock (clock_reads l) - clock 0) * 1000,
             iterations = iteration, error = Some (str e), completed = False\<rparr>
      else Inl e)"
| "execute_result net clock (l, iteration, ex) =
     Inr \<lparr>final_state = current_state l, steps = step_list l,
          total_duration_ms = (clock (clock_reads l) - clock 0) * 1000,
          iterations = iteration, error = None, completed = (current_node l = exit_node net)\<rparr>"

definition execute ::
  "WorkflowNetwork \<Rightarrow> (nat \<Rightarrow> real) \<Rightarrow> StateDict \<Rightarrow> int \<Rightarrow> exn + ExecutionResult" where
  "execute net clock initial_state max_iterations =
     execute_result net clock (execute_run net clock initial_state max_iterations)"

text \<open>The part of the locals of \<^verbatim>\<open>execute\<close> in which no clock reading is stored.\<close>

definition walk_of :: "exec_locals \<Rightarrow> StateDict \<times> string \<times> (string \<times> exn option) list" where
  "walk_of l = (current_state l, current_node l, invoked l)"

text \<open>
  \<^verbatim>\<open>stream\<close> is a generator. Its model is the list of the items it yields, in order, and the
  exception that ends the iteration when one escapes (an edge condition that raises is not
  caught there, nor is a node callable that raises something other than an \<^verbatim>\<open>Exception\<close>).
  The list is finite because the loop is bounded.
\<close>

type_synonym item = "string \<times> StateDict"

text \<open>
  Lines 181 to 193: the node is called and one item is yielded for it, unless the call raises
  an exception that \<^verbatim>\<open>except Exception\<close> does not catch: the third component is that exception.
\<close>

definition stream_node :: "Node \<Rightarrow> walk \<Rightarrow> item list \<times> walk \<times> exn option" where
  "stream_node node l =
     (case node_call node (current_state l) of
        Inr updates \<Rightarrow>
          (if updates \<noteq> [] then
             ([(current_node l, updates)],
              l\<lparr>current_state := dict_update (current_state l) updates,
                invoked := invoked l @ [(current_node l, None)]\<rparr>,
              None)
           else
             ([(current_node l, [])],
              l\<lparr>invoked := invoked l @ [(current_node l, None)]\<rparr>,
              None))
      | Inl e \<Rightarrow>
          (if is_Exception e then
             ([(current_node l, [(''error'', PStr (str e))])],
              l\<lparr>invoked := invoked l @ [(current_node l, Some e)]\<rparr>,
              None)
           else
             ([], l\<lparr>invoked := invoked l @ [(current_node l, Some e)]\<rparr>, Some e)))"

text \<open>
  The logged calls for which \<^verbatim>\<open>stream\<close> yields an item: those that returned and those that
  raised an \<^verbatim>\<open>Exception\<close>.
\<close>

definition yields_item :: "string \<times> exn option \<Rightarrow> bool" where
  "yields_item c = (case snd c of None \<Rightarrow> True | Some e \<Rightarrow> is_Exception e)"

text \<open>The body of the \<^verbatim>\<open>while\<close> loop of \<^verbatim>\<open>stream\<close>: the items of one pass and how it ends.\<close>

definition stream_body :: "WorkflowNetwork \<Rightarrow> walk \<Rightarrow> item list \<times> walk ctl" where
  "stream_body net l =
     (if current_node l = START then
        (case get_next_node (edges net) START (current_state l) of
           Inl e \<Rightarrow> ([], Raise l e)
         | Inr next_node \<Rightarrow>
             (if truthy next_node then
                ([(START, [(''next_node'', PStr (the next_node))])],
                 Continue (l\<lparr>current_node := the next_node\<rparr>))
              else ([], Break l)))
      else
        (case (case nodes net (current_node l) of
                 Some node \<Rightarrow> stream_node node l
               | None \<Rightarrow> ([], l, None)) of
           (ys, l1, Some e) \<Rightarrow> (ys, Raise l1 e)
         | (ys, l1, None) \<Rightarrow>
             (case get_next_node (edges net) (current_node l) (current_state l1) of
                Inl e \<Rightarrow> (ys, Raise l1 e)
              | Inr None \<Rightarrow> (ys, Break l1)
              | Inr (Some next_node) \<Rightarrow> (ys, Continue (l1\<lparr>current_node := next_node\<rparr>)))))"

function stream_loop ::
  "WorkflowNetwork \<Rightarrow> int \<Rightarrow> int \<Rightarrow> walk \<Rightarrow> item list \<times> walk \<times> loop_exit" where
  "stream_loop net max_iterations iteration l =
     (if current_node l \<noteq> exit_node net \<and> iteration < max_iterations then
        (case stream_body net l of
           (ys, Continue l') \<Rightarrow>
             (case stream_loop net max_iterations (iteration + 1) l' of
                (zs, r) \<Rightarrow> (ys @ zs, r))
         | (ys, Break l') \<Rightarrow> (ys, l', Broke)
         | (ys, Raise l' e) \<Rightarrow> (ys, l', Raised e))
      else ([], l, Finished))"
  by pat_completeness auto
termination
  by (relation "measure (\<lambda>(net, max_iterations, iteration, l). nat (max_iterations - iteration))")
     auto

declare stream_loop.simps [simp del]

definition stream_init :: "WorkflowNetwork \<Rightarrow> StateDict \<Rightarrow> walk" where
  "stream_init net initial_state =
     \<lparr>current_state = initial_state, current_node = entry_node net, invoked = []\<rparr>"

definition stream_run ::
  "WorkflowNetwork \<Rightarrow> StateDict \<Rightarrow> int \<Rightarrow> item list \<times> walk \<times> loop_exit" where
  "stream_run net initial_state max_iterations =
     stream_loop net max_iterations 0 (stream_init net initial_state)"

text \<open>The last two lines of \<^verbatim>\<open>stream\<close>, reached unless an exception left the loop.\<close>

fun stream_result :: "WorkflowNetwork \<Rightarrow> item list \<times> walk \<times> loop_exit \<Rightarrow> item list \<times> exn option" where
  "stream_result net (ys, l, Raised e) = (ys, Some e)"
| "stream_result net (ys, l, ex) =
     (if current_node l = exit_node net then (ys @ [(exit_node net, current_state l)], None)
      else (ys, None))"

definition stream :: "WorkflowNetwork \<Rightarrow> StateDict \<Rightarrow> int \<Rightarrow> item list \<times> exn option" where
  "stream net initial_state max_iterations =
     stream_result net (stream_run net initial_state max_iterations)"

subsection \<open>The engine and the compiled workflow\<close>

record ExecutionEngine =
  network :: WorkflowNetwork

text \<open>\<^verbatim>\<open>ExecutionEngine.__init__\<close> validates the network.\<close>

definition mk_ExecutionEngine :: "WorkflowNetwork \<Rightarrow> exn + ExecutionEngine" where
  "mk_ExecutionEngine net =
     (case validate net of Inl e \<Rightarrow> Inl e | Inr _ \<Rightarrow> Inr \<lparr>network = net\<rparr>)"

record CompiledWorkflow =
  compiled_network :: WorkflowNetwork
  engine :: "ExecutionEngine option"

definition mk_CompiledWorkflow :: "WorkflowNetwork \<Rightarrow> exn + CompiledWorkflow" where
  "mk_CompiledWorkflow net =
     (case mk_ExecutionEngine net of
        Inl e \<Rightarrow> Inl e
      | Inr eng \<Rightarrow> Inr \<lparr>compiled_network = net, engine = Some eng\<rparr>)"

definition compile :: "WorkflowNetwork \<Rightarrow> exn + CompiledWorkflow" where
  "compile net = (case validate net of Inl e \<Rightarrow> Inl e | Inr _ \<Rightarrow> mk_CompiledWorkflow net)"

text \<open>
  \<^verbatim>\<open>CompiledWorkflow.invoke\<close> returns the final state of \<^verbatim>\<open>execute\<close>; what escapes \<^verbatim>\<open>execute\<close>
  escapes \<^verbatim>\<open>invoke\<close>.
\<close>

definition invoke :: "CompiledWorkflow \<Rightarrow> (nat \<Rightarrow> real) \<Rightarrow> StateDict \<Rightarrow> int \<Rightarrow> exn + StateDict" where
  "invoke cw clock initial_state max_iterations =
     (case engine cw of
        None \<Rightarrow> Inl (RuntimeError ''ExecutionEngine not initialized'')
      | Some eng \<Rightarrow>
          (case execute (network eng) clock initial_state max_iterations of
             Inl e \<Rightarrow> Inl e
           | Inr result \<Rightarrow> Inr (final_state result)))"

text \<open>The nodes that an \<^verbatim>\<open>invoke\<close> calls, in order.\<close>

definition invoke_visits :: "CompiledWorkflow \<Rightarrow> (nat \<Rightarrow> real) \<Rightarrow> StateDict \<Rightarrow> int \<Rightarrow> string list" where
  "invoke_visits cw clock initial_state max_iterations =
     (case engine cw of
        None \<Rightarrow> []
      | Some eng \<Rightarrow>
          map fst (invoked (fst (execute_run (network eng) clock initial_state max_iterations))))"

section \<open>Example inputs\<close>

text \<open>Callables, a clock and small networks on which the theorems below are evaluated.\<close>

definition raise_boom :: NodeFunction where
  "raise_boom state = Inl (Exception ''boom'')"

definition set_x :: NodeFunction where
  "set_x state = Inr (PDict [(''x'', PInt 1)])"

definition return_none :: NodeFunction where
  "return_none state = Inr PNone"

definition return_42 :: NodeFunction where
  "return_42 state = Inr (PInt 42)"

definition tick_clock :: "nat \<Rightarrow> real" where
  "tick_clock k = real k"

text \<open>Two edges from \<open>A\<close>: the first has neither a target nor a condition.\<close>

definition two_static_edges :: EdgeSet where
  "two_static_edges = [mk_Edge ''A'' None None None, mk_Edge ''A'' (Some ''B'') None None]"

definition route_by_mode :: EdgeCondition where
  "route_by_mode state =
     (case dict_get state ''mode'' of
        Some (PStr m) \<Rightarrow> Inr m
      | _ \<Rightarrow> Inl (Exception ''mode''))"

definition mode_targets :: "string \<Rightarrow> string option" where
  "mode_targets = [''fast'' \<mapsto> ''B'', ''default'' \<mapsto> ''A'']"

definition raise_boom_condition :: EdgeCondition where
  "raise_boom_condition state = Inl (Exception ''boom'')"

text \<open>A static edge at \<open>A\<close>, then a conditional edge, a second conditional edge that raises.\<close>

definition mixed_edges :: EdgeSet where
  "mixed_edges =
     [mk_Edge ''A'' (Some ''C'') None None,
      mk_Edge ''A'' None None (Some (routed_condition route_by_mode mode_targets)),
      mk_Edge ''A'' None None (Some raise_boom_condition)]"

text \<open>\<open>A\<close> is a node; the edge from it has the empty string as its target.\<close>

definition empty_target_network :: WorkflowNetwork where
  "empty_target_network =
     add_edge (add_edge (add_node (new_network ''g'') ''A'' set_x None None) START ''A'' None)
       ''A'' [] None"

text \<open>The linear network \<open>START \<rightarrow> A \<rightarrow> END\<close>, and networks that break one reference each.\<close>

definition linear_network :: WorkflowNetwork where
  "linear_network =
     add_edge (add_edge (add_node (new_network ''g'') ''A'' set_x None None) START ''A'' None)
       ''A'' END None"

definition bad_entry_network :: WorkflowNetwork where
  "bad_entry_network = set_entry_point (add_edge linear_network ''X'' ''Y'' None) ''E''"

definition bad_exit_network :: WorkflowNetwork where
  "bad_exit_network = set_finish_point (add_edge linear_network ''X'' ''Y'' None) ''F''"

definition bad_source_network :: WorkflowNetwork where
  "bad_source_network = add_edge (add_edge linear_network ''X'' ''Y'' None) ''A'' ''Z'' None"

definition bad_target_network :: WorkflowNetwork where
  "bad_target_network = add_edge (add_edge linear_network ''A'' ''Y'' None) ''X'' ''A'' None"

text \<open>\<open>START \<rightarrow> A \<rightarrow> B \<rightarrow> END\<close>, where the callable of \<open>A\<close> raises.\<close>

definition failing_network :: WorkflowNetwork where
  "failing_network =
     add_edge (add_edge (add_edge
       (add_node (add_node (new_network ''g'') ''A'' raise_boom None None) ''B'' set_x None None)
       START ''A'' None) ''A'' ''B'' None) ''B'' END None"

text \<open>\<open>START \<rightarrow> A\<close> with no edge from \<open>A\<close>, and \<open>START \<rightarrow> A \<rightarrow> A\<close>.\<close>

definition dead_end_network :: WorkflowNetwork where
  "dead_end_network = add_edge (add_node (new_network ''g'') ''A'' set_x None None) START ''A'' None"

definition looping_network :: WorkflowNetwork where
  "looping_network = add_edge dead_end_network ''A'' ''A'' None"

text \<open>A node whose callable returns the integer 42.\<close>

definition answer_network :: WorkflowNetwork where
  "answer_network =
     add_edge (add_edge (add_node (new_network ''g'') ''A'' return_42 None None) START ''A'' None)
       ''A'' END None"

definition zero_clock :: "nat \<Rightarrow> real" where
  "zero_clock k = 0"

text \<open>What \<^verbatim>\<open>compile\<close> returns for the linear network and for the failing one.\<close>

definition compiled_linear :: CompiledWorkflow where
  "compiled_linear = \<lparr>compiled_network = linear_network, engine = Some \<lparr>network = linear_network\<rparr>\<rparr>"

text \<open>The locals of \<^verbatim>\<open>execute\<close> on the failing network when node \<open>A\<close> is about to be called.\<close>

definition at_node_A :: exec_locals where
  "at_node_A =
     \<lparr>current_state = [], current_node = ''A'', invoked = [], step_list = [], clock_reads = 3\<rparr>"

text \<open>The locals of \<^verbatim>\<open>stream\<close> on the failing network when node \<open>A\<close> is about to be called.\<close>

definition stream_at_A :: walk where
  "stream_at_A = \<lparr>current_state = [], current_node = ''A'', invoked = []\<rparr>"

text \<open>
  Two networks with one edge from \<open>START\<close>: a static edge built without target and put into
  the edge set, and a conditional edge whose condition reads the key \<^verbatim>\<open>mode\<close> of the state.
\<close>

definition start_no_target_network :: WorkflowNetwork where
  "start_no_target_network =
     (add_node (new_network ''g'') ''A'' set_x None None)
       \<lparr>edges := add_edge_set [] (mk_Edge START None None None)\<rparr>"

definition start_by_mode_network :: WorkflowNetwork where
  "start_by_mode_network =
     add_conditional_edge
       (add_edge (add_edge (add_node (add_node (new_network ''g'') ''A'' set_x None None)
          ''B'' set_x None None) ''A'' END None) ''B'' END None)
       START route_by_mode mode_targets None"

text \<open>A callable that ends the interpreter, and the failing network with it at node \<open>A\<close>.\<close>

definition exit_bye :: NodeFunction where
  "exit_bye state = Inl (SystemExit ''bye'')"

definition exiting_network :: WorkflowNetwork where
  "exiting_network =
     add_edge (add_edge (add_edge
       (add_node (add_node (new_network ''g'') ''A'' exit_bye None None) ''B'' set_x None None)
       START ''A'' None) ''A'' ''B'' None) ''B'' END None"

text \<open>\<open>START \<rightarrow> A \<rightarrow> END\<close> with the node \<open>F\<close> set as finish point.\<close>

definition custom_finish_network :: WorkflowNetwork where
  "custom_finish_network =
     set_finish_point
       (add_edge (add_edge
          (add_node (add_node (new_network ''g'') ''A'' set_x None None) ''F'' set_x None None)
          START ''A'' None) ''A'' END None)
       ''F''"

text \<open>A network with a node whose id is that of \<open>START\<close>, set as finish point.\<close>

definition start_is_exit_network :: WorkflowNetwork where
  "start_is_exit_network =
     set_finish_point
       (add_edge (add_edge
          (add_node (add_node (new_network ''g'') START set_x None None) ''A'' set_x None None)
          START ''A'' None) ''A'' END None)
       START"

text \<open>A conditional edge at \<open>A\<close> whose target map leads back to \<open>START\<close>.\<close>

definition always_again :: EdgeCondition where
  "always_again state = Inr ''again''"

definition again_targets :: "string \<Rightarrow> string option" where
  "again_targets = [''again'' \<mapsto> START]"

text \<open>A conditional edge from \<open>START\<close> whose target map gives the empty string.\<close>

definition empty_targets :: "string \<Rightarrow> string option" where
  "empty_targets = [''again'' \<mapsto> []]"

definition start_to_empty_network :: WorkflowNetwork where
  "start_to_empty_network =
     add_conditional_edge (add_node (new_network ''g'') ''A'' set_x None None)
       START always_again empty_targets None"

definition back_to_start_network :: WorkflowNetwork where
  "back_to_start_network =
     add_conditional_edge
       (add_edge (add_node (new_network ''g'') ''A'' set_x None None) START ''A'' None)
       ''A'' always_again again_targets None"

section \<open>Auxiliary facts\<close>

lemmas net_defs = linear_network_def bad_entry_network_def bad_exit_network_def
  bad_source_network_def bad_target_network_def empty_target_network_def
  failing_network_def dead_end_network_def looping_network_def answer_network_def
  exiting_network_def custom_finish_network_def start_is_exit_network_def
  add_edge_def add_node_def new_network_def set_entry_point_def set_finish_point_def
  add_edge_set_def mk_Edge_def mk_Node_def bad_source_def bad_target_def START_def END_def

lemmas run_defs = execute_def execute_run_def execute_init_def execute_loop.simps execute_body_def
  execute_node_def node_call_def get_next_node_def get_edges_from_def route_def Let_def
  raise_boom_def set_x_def return_42_def return_none_def exit_bye_def tick_clock_def
  zero_clock_def

lemma dict_get_dict_set: "dict_get (dict_set k v d) k = Some v"
  by (induction d) (auto simp: dict_get_def)

subsection \<open>Routing\<close>

lemma first_conditional_append:
  "\<forall>x\<in>set pre. \<not> is_conditional x \<Longrightarrow> first_conditional (pre @ es) = first_conditional es"
  by (induction pre) auto

lemma first_conditional_none:
  "\<forall>x\<in>set es. \<not> is_conditional x \<Longrightarrow> first_conditional es = None"
  by (induction es) auto

lemma first_simple_append:
  "\<forall>x\<in>set pre. is_conditional x \<or> \<not> truthy (target_node x) \<Longrightarrow>
   first_simple (pre @ es) = first_simple es"
  by (induction pre) auto

lemma first_simple_none:
  "\<forall>x\<in>set es. is_conditional x \<or> \<not> truthy (target_node x) \<Longrightarrow> first_simple es = None"
  by (induction es) auto

subsection \<open>Validation\<close>

lemma validate_edges_append:
  "\<forall>x\<in>set pre. \<not> bad_source ns x \<and> \<not> bad_target ns x \<Longrightarrow>
   validate_edges ns (pre @ es) = validate_edges ns es"
  by (induction pre) auto

lemma validate_edges_ok:
  "\<forall>x\<in>set es. \<not> bad_source ns x \<and> \<not> bad_target ns x \<Longrightarrow> validate_edges ns es = Inr ()"
  by (induction es) auto

lemma compile_validate:
  "compile net =
     (case validate net of
        Inl x \<Rightarrow> Inl x
      | Inr _ \<Rightarrow> Inr \<lparr>compiled_network = net, engine = Some \<lparr>network = net\<rparr>\<rparr>)"
  by (simp add: compile_def mk_CompiledWorkflow_def mk_ExecutionEngine_def split: sum.splits)

subsection \<open>One pass of the loop of \<^verbatim>\<open>execute\<close>\<close>

lemma execute_body_Continue:
  "execute_body net clock l = Continue l' \<Longrightarrow>
   invoked l' = invoked l \<or> invoked l' = invoked l @ [(current_node l, None)]"
  by (auto simp: execute_body_def execute_node_def Let_def split: if_splits sum.splits option.splits)

lemma execute_body_Break:
  "execute_body net clock l = Break l' \<Longrightarrow>
   current_node l' = current_node l \<and>
   (invoked l' = invoked l \<or> invoked l' = invoked l @ [(current_node l, None)]) \<and>
   (\<exists>nn. get_next_node (edges net) (current_node l') (current_state l') = Inr nn \<and> \<not> truthy nn)"
  by (auto simp: execute_body_def execute_node_def Let_def split: if_splits sum.splits option.splits)

lemma execute_body_Raise:
  "execute_body net clock l = Raise l' e \<Longrightarrow>
   invoked l' = invoked l \<or> invoked l' = invoked l @ [(current_node l, None)] \<or>
   (\<exists>x. invoked l' = invoked l @ [(current_node l, Some x)] \<and>
        e = (if is_Exception x
             then RuntimeError (''Node '' @ current_node l @ '' failed: '' @ str x) else x))"
  by (auto simp: execute_body_def execute_node_def Let_def split: if_splits sum.splits option.splits)

text \<open>
  As long as no call has raised, the loop either ends with no failed call in the log, or it
  is left by what the call logged last raised: the \<^verbatim>\<open>RuntimeError\<close> built from an \<^verbatim>\<open>Exception\<close>,
  or the exception itself when it is not one.
\<close>

lemma execute_loop_invoked:
  "execute_loop net clock max_iterations iteration l = (lf, itf, ex) \<Longrightarrow>
   \<forall>c\<in>set (invoked l). snd c = None \<Longrightarrow>
   (\<forall>c\<in>set (invoked lf). snd c = None) \<or>
   (\<exists>pre n x. invoked lf = pre @ [(n, Some x)] \<and> (\<forall>c\<in>set pre. snd c = None) \<and>
              ex = Raised (if is_Exception x
                           then RuntimeError (''Node '' @ n @ '' failed: '' @ str x) else x))"
proof (induction net clock max_iterations iteration l arbitrary: lf itf ex rule: execute_loop.induct)
  case (1 net clock max_iterations iteration l)
  show ?case
  proof (cases "current_node l \<noteq> exit_node net \<and> iteration < max_iterations")
    case False
    with "1.prems" show ?thesis
      by (simp add: execute_loop.simps)
  next
    case True
    show ?thesis
    proof (cases "execute_body net clock l")
      case (Continue l')
      with True "1.prems"
      have run: "execute_loop net clock max_iterations (iteration + 1) l' = (lf, itf, ex)"
        by (simp add: execute_loop.simps)
      from execute_body_Continue [OF Continue] "1.prems"(2)
      have "\<forall>c\<in>set (invoked l'). snd c = None"
        by auto
      with "1.IH" [OF True Continue run] show ?thesis .
    next
      case (Break l')
      with True "1.prems" have "lf = l'"
        by (simp add: execute_loop.simps)
      with execute_body_Break [OF Break] "1.prems"(2) show ?thesis
        by auto
    next
      case (Raise l' e)
      with True "1.prems" have eq: "lf = l'" "ex = Raised e"
        by (simp_all add: execute_loop.simps)
      from execute_body_Raise [OF Raise]
      consider "invoked l' = invoked l \<or> invoked l' = invoked l @ [(current_node l, None)]"
        | x where "invoked l' = invoked l @ [(current_node l, Some x)]"
            "e = (if is_Exception x
                  then RuntimeError (''Node '' @ current_node l @ '' failed: '' @ str x) else x)"
        by blast
      then show ?thesis
      proof cases
        case 1
        with eq "1.prems"(2) show ?thesis
          by auto
      next
        case 2
        with eq "1.prems"(2) show ?thesis
          by blast
      qed
    qed
  qed
qed

lemma failing_run:
  "execute_run failing_network tick_clock [] 1000 =
     (\<lparr>current_state = [], current_node = ''A'', invoked = [(''A'', Some (Exception ''boom''))],
       step_list = [], clock_reads = 5\<rparr>, 2, Raised (RuntimeError ''Node A failed: boom''))"
  by (simp add: run_defs net_defs)

lemma exiting_run:
  "execute_run exiting_network tick_clock [] 1000 =
     (\<lparr>current_state = [], current_node = ''A'', invoked = [(''A'', Some (SystemExit ''bye''))],
       step_list = [], clock_reads = 4\<rparr>, 2, Raised (SystemExit ''bye''))"
  by (simp add: run_defs net_defs)

lemma execute_loop_exit:
  "execute_loop net clock max_iterations iteration l = (lf, itf, ex) \<Longrightarrow>
   iteration \<le> itf \<and> (itf = iteration \<or> itf \<le> max_iterations) \<and>
   (ex = Finished \<longrightarrow> current_node lf = exit_node net \<or> max_iterations \<le> itf) \<and>
   (ex \<noteq> Finished \<longrightarrow> iteration < itf \<and> itf \<le> max_iterations) \<and>
   (ex = Broke \<longrightarrow> current_node lf \<noteq> exit_node net \<and>
      (\<exists>nn. get_next_node (edges net) (current_node lf) (current_state lf) = Inr nn \<and> \<not> truthy nn))"
proof (induction net clock max_iterations iteration l arbitrary: lf itf ex rule: execute_loop.induct)
  case (1 net clock max_iterations iteration l)
  show ?case
  proof (cases "current_node l \<noteq> exit_node net \<and> iteration < max_iterations")
    case False
    with "1.prems" show ?thesis
      by (auto simp: execute_loop.simps)
  next
    case True
    show ?thesis
    proof (cases "execute_body net clock l")
      case (Continue l')
      with True "1.prems"
      have run: "execute_loop net clock max_iterations (iteration + 1) l' = (lf, itf, ex)"
        by (simp add: execute_loop.simps)
      from "1.IH" [OF True Continue run] True show ?thesis
        by auto
    next
      case (Break l')
      with True "1.prems" have "lf = l'" "itf = iteration + 1" "ex = Broke"
        by (simp_all add: execute_loop.simps)
      with execute_body_Break [OF Break] True show ?thesis
        by auto
    next
      case (Raise l' e)
      with True "1.prems" have "itf = iteration + 1" "ex = Raised e"
        by (simp_all add: execute_loop.simps)
      with True show ?thesis
        by auto
    qed
  qed
qed

lemma dead_end_run:
  "execute_run dead_end_network tick_clock [] 1000 =
     (\<lparr>current_state = [(''x'', PInt 1)], current_node = ''A'', invoked = [(''A'', None)],
       step_list = [\<lparr>step_node_id = ''A'', timestamp = 3, state_before = Some [],
                     state_after = Some [(''x'', PInt 1)], step_error = None, duration_ms = 2000\<rparr>],
       clock_reads = 5\<rparr>, 2, Broke)"
  by (simp add: run_defs net_defs)

lemma looping_run:
  "fst (snd (execute_run looping_network tick_clock [] 3)) = 3 \<and>
   snd (snd (execute_run looping_network tick_clock [] 3)) = Finished \<and>
   current_node (fst (execute_run looping_network tick_clock [] 3)) = ''A''"
  by (simp add: run_defs net_defs)

text \<open>The same two networks with the bound 2.\<close>

lemma dead_end_run_2:
  "execute_run dead_end_network tick_clock [] 2 =
     (\<lparr>current_state = [(''x'', PInt 1)], current_node = ''A'', invoked = [(''A'', None)],
       step_list = [\<lparr>step_node_id = ''A'', timestamp = 3, state_before = Some [],
                     state_after = Some [(''x'', PInt 1)], step_error = None, duration_ms = 2000\<rparr>],
       clock_reads = 5\<rparr>, 2, Broke)"
  by (simp add: run_defs net_defs)

lemma looping_run_2:
  "execute_run looping_network tick_clock [] 2 =
     (\<lparr>current_state = [(''x'', PInt 1)], current_node = ''A'', invoked = [(''A'', None)],
       step_list = [\<lparr>step_node_id = ''A'', timestamp = 3, state_before = Some [],
                     state_after = Some [(''x'', PInt 1)], step_error = None, duration_ms = 2000\<rparr>],
       clock_reads = 5\<rparr>, 2, Finished)"
  by (simp add: run_defs net_defs)

subsection \<open>Independence of the clock\<close>

text \<open>
  Two runs of the loop of \<^verbatim>\<open>execute\<close> that start from locals with the same state, node and
  call log proceed in lockstep, whatever the two clocks read.
\<close>

lemma execute_body_clock:
  "walk_of l1 = walk_of l2 \<Longrightarrow>
   map_ctl walk_of (execute_body net clock1 l1) = map_ctl walk_of (execute_body net clock2 l2)"
  by (auto simp: walk_of_def execute_body_def execute_node_def Let_def
           split: if_splits sum.splits option.splits)

lemma execute_loop_clock:
  "walk_of l1 = walk_of l2 \<Longrightarrow>
   map_prod walk_of id (execute_loop net clock1 max_iterations iteration l1) =
   map_prod walk_of id (execute_loop net clock2 max_iterations iteration l2)"
proof (induction net clock1 max_iterations iteration l1 arbitrary: l2 rule: execute_loop.induct)
  case (1 net clock1 max_iterations iteration l1)
  from "1.prems" have node: "current_node l2 = current_node l1"
    by (simp add: walk_of_def)
  show ?case
  proof (cases "current_node l1 \<noteq> exit_node net \<and> iteration < max_iterations")
    case False
    with node "1.prems" show ?thesis
      by (auto simp: execute_loop.simps [of net _ max_iterations iteration])
  next
    case True
    note body = execute_body_clock [OF "1.prems", of net clock1 clock2]
    show ?thesis
    proof (cases "execute_body net clock1 l1")
      case (Continue l1')
      with body obtain l2' where c2: "execute_body net clock2 l2 = Continue l2'"
        and w: "walk_of l1' = walk_of l2'"
        by (cases "execute_body net clock2 l2") auto
      from "1.IH" [OF True Continue w] True node Continue c2 show ?thesis
        by (simp add: execute_loop.simps [of net _ max_iterations iteration])
    next
      case (Break l1')
      with body obtain l2' where c2: "execute_body net clock2 l2 = Break l2'"
        and w: "walk_of l1' = walk_of l2'"
        by (cases "execute_body net clock2 l2") auto
      with True node Break show ?thesis
        by (simp add: execute_loop.simps [of net _ max_iterations iteration])
    next
      case (Raise l1' e)
      with body obtain l2' where c2: "execute_body net clock2 l2 = Raise l2' e"
        and w: "walk_of l1' = walk_of l2'"
        by (cases "execute_body net clock2 l2") auto
      with True node Raise show ?thesis
        by (simp add: execute_loop.simps [of net _ max_iterations iteration])
    qed
  qed
qed

lemma execute_run_clock:
  "map_prod walk_of id (execute_run net clock1 s m) = map_prod walk_of id (execute_run net clock2 s m)"
  unfolding execute_run_def by (rule execute_loop_clock) simp

lemma invoke_execute:
  "(case execute net clock s m of Inl e \<Rightarrow> Inl e | Inr result \<Rightarrow> Inr (final_state result)) =
   (case snd (snd (execute_run net clock s m)) of
      Raised e \<Rightarrow> if is_Exception e then Inr (fst (walk_of (fst (execute_run net clock s m)))) else Inl e
    | _ \<Rightarrow> Inr (fst (walk_of (fst (execute_run net clock s m)))))"
proof -
  obtain l it ex where r: "execute_run net clock s m = (l, it, ex)"
    by (cases "execute_run net clock s m")
  then show ?thesis
    by (cases ex) (simp_all add: execute_def walk_of_def)
qed

lemma invoked_walk_of: "invoked l = snd (snd (walk_of l))"
  by (simp add: walk_of_def)

subsection \<open>The loop of \<^verbatim>\<open>stream\<close>\<close>

lemmas stream_defs = stream_def stream_run_def stream_init_def stream_loop.simps stream_body_def
  stream_node_def node_call_def get_next_node_def get_edges_from_def route_def Let_def
  raise_boom_def set_x_def return_42_def return_none_def exit_bye_def

lemmas cond_defs = add_conditional_edge_def routed_condition_def route_by_mode_def
  mode_targets_def always_again_def again_targets_def empty_targets_def dict_get_def
  start_no_target_network_def start_by_mode_network_def back_to_start_network_def
  start_to_empty_network_def

text \<open>
  What one pass, and then the whole loop, adds to the call log: every call that raised an
  \<^verbatim>\<open>Exception\<close> has its error item among the items yielded, and every item is either an item
  of \<open>START\<close> or the item of one call that returned or raised an \<^verbatim>\<open>Exception\<close>.
\<close>

lemma stream_body_log:
  "stream_body net l = (ys, k) \<Longrightarrow> k = Continue l' \<or> k = Break l' \<or> k = Raise l' e \<Longrightarrow>
   (\<exists>new. invoked l' = invoked l @ new \<and>
      (\<forall>n x. (n, Some x) \<in> set new \<and> is_Exception x \<longrightarrow> (n, [(''error'', PStr (str x))]) \<in> set ys) \<and>
      length ys = length (filter (\<lambda>i. fst i = START) ys) + length (filter yields_item new))"
  by (auto simp: stream_body_def stream_node_def yields_item_def Let_def
           split: if_splits sum.splits option.splits prod.splits)

lemma stream_loop_log:
  "stream_loop net max_iterations iteration l = (ys, lf, ex) \<Longrightarrow>
   (\<exists>new. invoked lf = invoked l @ new \<and>
      (\<forall>n x. (n, Some x) \<in> set new \<and> is_Exception x \<longrightarrow> (n, [(''error'', PStr (str x))]) \<in> set ys) \<and>
      length ys = length (filter (\<lambda>i. fst i = START) ys) + length (filter yields_item new))"
proof (induction net max_iterations iteration l arbitrary: ys lf ex rule: stream_loop.induct)
  case (1 net max_iterations iteration l)
  show ?case
  proof (cases "current_node l \<noteq> exit_node net \<and> iteration < max_iterations")
    case False
    with "1.prems" show ?thesis
      by (auto simp: stream_loop.simps)
  next
    case True
    obtain bs k where body: "stream_body net l = (bs, k)"
      by (cases "stream_body net l")
    show ?thesis
    proof (cases k)
      case (Continue l')
      obtain zs lz ez where rest: "stream_loop net max_iterations (iteration + 1) l' = (zs, lz, ez)"
        by (cases "stream_loop net max_iterations (iteration + 1) l'")
      with True body Continue "1.prems" have eq: "ys = bs @ zs" "lf = lz" "ex = ez"
        by (simp_all add: stream_loop.simps [of net max_iterations iteration])
      from stream_body_log [OF body, of l'] Continue
      obtain new1 where n1: "invoked l' = invoked l @ new1"
        "\<forall>n x. (n, Some x) \<in> set new1 \<and> is_Exception x \<longrightarrow> (n, [(''error'', PStr (str x))]) \<in> set bs"
        "length bs = length (filter (\<lambda>i. fst i = START) bs) + length (filter yields_item new1)"
        by blast
      from "1.IH" [OF True body [symmetric] Continue rest]
      obtain new2 where n2: "invoked lz = invoked l' @ new2"
        "\<forall>n x. (n, Some x) \<in> set new2 \<and> is_Exception x \<longrightarrow> (n, [(''error'', PStr (str x))]) \<in> set zs"
        "length zs = length (filter (\<lambda>i. fst i = START) zs) + length (filter yields_item new2)"
        by blast
      from n1 n2 eq have "invoked lf = invoked l @ (new1 @ new2) \<and>
        (\<forall>n x. (n, Some x) \<in> set (new1 @ new2) \<and> is_Exception x \<longrightarrow>
           (n, [(''error'', PStr (str x))]) \<in> set ys) \<and>
        length ys = length (filter (\<lambda>i. fst i = START) ys) + length (filter yields_item (new1 @ new2))"
        by auto
      then show ?thesis
        by blast
    next
      case (Break l')
      with True body "1.prems" have "ys = bs" "lf = l'"
        by (simp_all add: stream_loop.simps [of net max_iterations iteration])
      with stream_body_log [OF body, of l'] Break show ?thesis
        by blast
    next
      case (Raise l' e)
      with True body "1.prems" have "ys = bs" "lf = l'"
        by (simp_all add: stream_loop.simps [of net max_iterations iteration])
      with stream_body_log [OF body, of l' e] Raise show ?thesis
        by blast
    qed
  qed
qed

text \<open>When routing never leads to \<open>START\<close>, a loop that is not at \<open>START\<close> yields no item for it.\<close>

lemma stream_body_no_START:
  "\<forall>src st. get_next_node (edges net) src st \<noteq> Inr (Some START) \<Longrightarrow>
   current_node l \<noteq> START \<Longrightarrow> stream_body net l = (ys, k) \<Longrightarrow>
   filter (\<lambda>i. fst i = START) ys = [] \<and> (\<forall>l'. k = Continue l' \<longrightarrow> current_node l' \<noteq> START)"
  by (auto simp: stream_body_def stream_node_def Let_def
           split: if_splits sum.splits option.splits prod.splits)

lemma stream_loop_no_START:
  "stream_loop net max_iterations iteration l = (ys, lf, ex) \<Longrightarrow>
   \<forall>src st. get_next_node (edges net) src st \<noteq> Inr (Some START) \<Longrightarrow>
   current_node l \<noteq> START \<Longrightarrow>
   filter (\<lambda>i. fst i = START) ys = []"
proof (induction net max_iterations iteration l arbitrary: ys lf ex rule: stream_loop.induct)
  case (1 net max_iterations iteration l)
  show ?case
  proof (cases "current_node l \<noteq> exit_node net \<and> iteration < max_iterations")
    case False
    with "1.prems" show ?thesis
      by (auto simp: stream_loop.simps)
  next
    case True
    obtain bs k where body: "stream_body net l = (bs, k)"
      by (cases "stream_body net l")
    note b = stream_body_no_START [OF "1.prems"(2,3) body]
    show ?thesis
    proof (cases k)
      case (Continue l')
      obtain zs lz ez where rest: "stream_loop net max_iterations (iteration + 1) l' = (zs, lz, ez)"
        by (cases "stream_loop net max_iterations (iteration + 1) l'")
      with True body Continue "1.prems" have eq: "ys = bs @ zs"
        by (simp_all add: stream_loop.simps [of net max_iterations iteration])
      from b Continue have "current_node l' \<noteq> START"
        by simp
      from "1.IH" [OF True body [symmetric] Continue rest "1.prems"(2) this] b eq
      show ?thesis
        by simp
    next
      case (Break l')
      with True body "1.prems" have "ys = bs"
        by (simp_all add: stream_loop.simps [of net max_iterations iteration])
      with b show ?thesis
        by simp
    next
      case (Raise l' e)
      with True body "1.prems" have "ys = bs"
        by (simp_all add: stream_loop.simps [of net max_iterations iteration])
      with b show ?thesis
        by simp
    qed
  qed
qed

lemma failing_stream_run:
  "stream_run failing_network [] 1000 =
     ([(START, [(''next_node'', PStr ''A'')]), (''A'', [(''error'', PStr ''boom'')]),
       (''B'', [(''x'', PInt 1)])],
      \<lparr>current_state = [(''x'', PInt 1)], current_node = END,
        invoked = [(''A'', Some (Exception ''boom'')), (''B'', None)]\<rparr>, Finished)"
  by (simp add: stream_defs net_defs)

lemma custom_finish_stream_run:
  "stream_run custom_finish_network [] 1000 =
     ([(START, [(''next_node'', PStr ''A'')]), (''A'', [(''x'', PInt 1)])],
      \<lparr>current_state = [(''x'', PInt 1)], current_node = END, invoked = [(''A'', None)]\<rparr>, Broke)"
  by (simp add: stream_defs net_defs)

section \<open>The claims\<close>

subsection \<open>C1: a failing node ends \<^verbatim>\<open>execute\<close> with an error result\<close>

text \<open>
  Claim C1, amended. The handlers of \<^verbatim>\<open>execute\<close> are \<^verbatim>\<open>except Exception\<close> clauses, so \<^verbatim>\<open>execute\<close>
  returns an \<open>ExecutionResult\<close> unless something that is not an \<^verbatim>\<open>Exception\<close> is raised inside
  its loop. For every network, clock, initial state and iteration bound, if the call of a
  node \<open>n\<close> raised \<open>e\<close> during the run, that call is the last entry of the call log: every
  earlier call succeeded and no node was called after it. If \<open>e\<close> is an \<^verbatim>\<open>Exception\<close>, the loop
  was left by the \<^verbatim>\<open>RuntimeError\<close> built from it and \<^verbatim>\<open>execute\<close> returns normally, with a result
  whose error is the message \<^verbatim>\<open>Node n failed: str(e)\<close> and whose \<open>completed\<close> is false. If \<open>e\<close> is
  not an \<^verbatim>\<open>Exception\<close> (\<^verbatim>\<open>SystemExit\<close>, \<^verbatim>\<open>KeyboardInterrupt\<close>), it reaches the caller of \<^verbatim>\<open>execute\<close>.
\<close>

theorem execute_reports_node_failure:
  assumes run: "execute_run net clock initial_state max_iterations = (l, iteration, ex)"
  shows "(\<forall>x. execute net clock initial_state max_iterations = Inl x \<longrightarrow>
              \<not> is_Exception x \<and> ex = Raised x) \<and>
         ((n, Some e) \<in> set (invoked l) \<longrightarrow>
            (\<exists>pre. invoked l = pre @ [(n, Some e)] \<and> (\<forall>c\<in>set pre. snd c = None)) \<and>
            (is_Exception e \<longrightarrow>
               ex = Raised (RuntimeError (''Node '' @ n @ '' failed: '' @ str e)) \<and>
               (\<exists>r. execute net clock initial_state max_iterations = Inr r \<and>
                    error r = Some (''Node '' @ n @ '' failed: '' @ str e) \<and>
                    \<not> completed r)) \<and>
            (\<not> is_Exception e \<longrightarrow>
               ex = Raised e \<and> execute net clock initial_state max_iterations = Inl e))"
proof (intro conjI allI impI)
  fix x
  assume "execute net clock initial_state max_iterations = Inl x"
  with run show "\<not> is_Exception x" "ex = Raised x"
    by (cases ex; simp add: execute_def split: if_splits)+
next
  assume fails: "(n, Some e) \<in> set (invoked l)"
  from run
  have "execute_loop net clock max_iterations 0 (execute_init net initial_state) = (l, iteration, ex)"
    by (simp add: execute_run_def)
  from execute_loop_invoked [OF this] fails
  obtain pre n' e' where inv: "invoked l = pre @ [(n', Some e')]" "\<forall>c\<in>set pre. snd c = None"
    and ex: "ex = Raised (if is_Exception e'
                          then RuntimeError (''Node '' @ n' @ '' failed: '' @ str e') else e')"
    by (fastforce simp: execute_init_def)
  from inv fails have same: "n' = n" "e' = e"
    by auto
  from inv same show "\<exists>pre. invoked l = pre @ [(n, Some e)] \<and> (\<forall>c\<in>set pre. snd c = None)"
    by blast
  {
    assume "is_Exception e"
    with ex same show "ex = Raised (RuntimeError (''Node '' @ n @ '' failed: '' @ str e))"
      by simp
    with run show "\<exists>r. execute net clock initial_state max_iterations = Inr r \<and>
                    error r = Some (''Node '' @ n @ '' failed: '' @ str e) \<and> \<not> completed r"
      by (simp add: execute_def)
  }
  {
    assume "\<not> is_Exception e"
    with ex same show x: "ex = Raised e"
      by simp
    with run \<open>\<not> is_Exception e\<close> show "execute net clock initial_state max_iterations = Inl e"
      by (simp add: execute_def)
  }
qed

text \<open>
  On \<open>START \<rightarrow> A \<rightarrow> B \<rightarrow> END\<close> with \<open>A\<close> raising \<^verbatim>\<open>Exception("boom")\<close>, \<open>B\<close> is never called and the
  result reports the failure.
\<close>

theorem execute_reports_node_failure_witness:
  "invoked (fst (execute_run failing_network tick_clock [] 1000)) =
     [(''A'', Some (Exception ''boom''))] \<and>
   (\<exists>r. execute failing_network tick_clock [] 1000 = Inr r \<and>
        error r = Some ''Node A failed: boom'' \<and> \<not> completed r)"
proof -
  have "(''A'', Some (Exception ''boom'')) \<in> set (invoked \<lparr>current_state = [], current_node = ''A'',
          invoked = [(''A'', Some (Exception ''boom''))], step_list = [], clock_reads = 5\<rparr>)"
    by simp
  with execute_reports_node_failure [OF failing_run, of "''A''" "Exception ''boom''"]
  show ?thesis
    by (simp add: failing_run)
qed

text \<open>
  The claim as it was written fails for a callable that raises \<^verbatim>\<open>SystemExit\<close>: the network is
  valid, the call of \<open>A\<close> raises, and \<^verbatim>\<open>execute\<close> does not return a result.
\<close>

theorem execute_system_exit_counterexample:
  "validate exiting_network = Inr True \<and>
   nodes exiting_network ''A'' = Some (mk_Node ''A'' (Some exit_bye) None None) \<and>
   node_call (mk_Node ''A'' (Some exit_bye) None None) [] = Inl (SystemExit ''bye'') \<and>
   invoked (fst (execute_run exiting_network tick_clock [] 1000)) =
     [(''A'', Some (SystemExit ''bye''))] \<and>
   execute exiting_network tick_clock [] 1000 = Inl (SystemExit ''bye'')"
proof -
  have "validate exiting_network = Inr True"
    and "nodes exiting_network ''A'' = Some (mk_Node ''A'' (Some exit_bye) None None)"
    and "node_call (mk_Node ''A'' (Some exit_bye) None None) [] = Inl (SystemExit ''bye'')"
    by (simp_all add: validate_def net_defs node_call_def exit_bye_def)
  then show ?thesis
    by (simp add: execute_def exiting_run)
qed

subsection \<open>C2: a failing node does not stop \<^verbatim>\<open>stream\<close>\<close>

text \<open>
  Claim C2, amended. Wherever the loop of \<^verbatim>\<open>stream\<close> stands (\<open>l\<close> are its locals, within the bound
  and not at the exit), if the callable of the current node raises an \<^verbatim>\<open>Exception\<close> \<open>e\<close> and
  routing from that node gives \<open>next_node\<close>, then the item \<open>(node, {"error": str(e)})\<close> is yielded
  and the traversal goes on from \<open>next_node\<close> with the state unchanged. Over a whole run, every
  call that raised an \<^verbatim>\<open>Exception\<close> has its error item among the items yielded. When the loop
  ends at the exit node of the network, which is \<open>END\<close> unless another finish point was set,
  the last item yielded is that node with the full final state.
\<close>

theorem stream_reports_failure_and_continues:
  "(current_node l \<noteq> exit_node net \<and> iteration < max_iterations \<and> current_node l \<noteq> START \<and>
    nodes net (current_node l) = Some node \<and> node_call node (current_state l) = Inl e \<and>
    is_Exception e \<and>
    get_next_node (edges net) (current_node l) (current_state l) = Inr (Some next_node) \<longrightarrow>
      stream_loop net max_iterations iteration l =
        (case stream_loop net max_iterations (iteration + 1)
                (l\<lparr>invoked := invoked l @ [(current_node l, Some e)],
                   current_node := next_node\<rparr>) of
           (zs, r) \<Rightarrow> ((current_node l, [(''error'', PStr (str e))]) # zs, r))) \<and>
   (stream_run net initial_state max_iterations = (ys, lf, ex) \<longrightarrow>
      (\<forall>n x. (n, Some x) \<in> set (invoked lf) \<and> is_Exception x \<longrightarrow>
         (n, [(''error'', PStr (str x))]) \<in> set ys) \<and>
      ((ex = Finished \<or> ex = Broke) \<and> current_node lf = exit_node net \<longrightarrow>
         stream net initial_state max_iterations = (ys @ [(exit_node net, current_state lf)], None) \<and>
         last (fst (stream net initial_state max_iterations)) = (exit_node net, current_state lf) \<and>
         (exit_node net = END \<longrightarrow>
            last (fst (stream net initial_state max_iterations)) = (END, current_state lf))))"
proof (intro conjI impI)
  assume a: "current_node l \<noteq> exit_node net \<and> iteration < max_iterations \<and> current_node l \<noteq> START \<and>
    nodes net (current_node l) = Some node \<and> node_call node (current_state l) = Inl e \<and>
    is_Exception e \<and>
    get_next_node (edges net) (current_node l) (current_state l) = Inr (Some next_node)"
  then have "stream_body net l =
     ([(current_node l, [(''error'', PStr (str e))])],
      Continue (l\<lparr>invoked := invoked l @ [(current_node l, Some e)],
                  current_node := next_node\<rparr>))"
    by (simp add: stream_body_def stream_node_def)
  with a show "stream_loop net max_iterations iteration l =
        (case stream_loop net max_iterations (iteration + 1)
                (l\<lparr>invoked := invoked l @ [(current_node l, Some e)],
                   current_node := next_node\<rparr>) of
           (zs, r) \<Rightarrow> ((current_node l, [(''error'', PStr (str e))]) # zs, r))"
    by (simp add: stream_loop.simps [of net max_iterations iteration] split: prod.splits)
next
  assume run: "stream_run net initial_state max_iterations = (ys, lf, ex)"
  then have "stream_loop net max_iterations 0 (stream_init net initial_state) = (ys, lf, ex)"
    by (simp add: stream_run_def)
  from stream_loop_log [OF this]
  show "\<forall>n x. (n, Some x) \<in> set (invoked lf) \<and> is_Exception x \<longrightarrow>
         (n, [(''error'', PStr (str x))]) \<in> set ys"
    by (auto simp: stream_init_def)
next
  assume run: "stream_run net initial_state max_iterations = (ys, lf, ex)"
    and fin: "(ex = Finished \<or> ex = Broke) \<and> current_node lf = exit_node net"
  then show s: "stream net initial_state max_iterations =
    (ys @ [(exit_node net, current_state lf)], None)"
    by (auto simp: stream_def)
  show t: "last (fst (stream net initial_state max_iterations)) = (exit_node net, current_state lf)"
    by (simp add: s)
  {
    assume "exit_node net = END"
    with t show "last (fst (stream net initial_state max_iterations)) = (END, current_state lf)"
      by simp
  }
qed

text \<open>
  On \<open>START \<rightarrow> A \<rightarrow> B \<rightarrow> END\<close> with \<open>A\<close> raising \<^verbatim>\<open>Exception("boom")\<close>: the error item of \<open>A\<close> is
  followed by the item of \<open>B\<close>, and the last item is \<open>END\<close> with the final state.
\<close>

theorem stream_reports_failure_and_continues_witness:
  "fst (stream_loop failing_network 1000 1 stream_at_A) =
     [(''A'', [(''error'', PStr ''boom'')]), (''B'', [(''x'', PInt 1)])] \<and>
   (''A'', [(''error'', PStr ''boom'')]) \<in> set (fst (stream_run failing_network [] 1000)) \<and>
   stream failing_network [] 1000 =
     ([(START, [(''next_node'', PStr ''A'')]), (''A'', [(''error'', PStr ''boom'')]),
       (''B'', [(''x'', PInt 1)]), (END, [(''x'', PInt 1)])], None) \<and>
   last (fst (stream failing_network [] 1000)) = (END, [(''x'', PInt 1)])"
proof -
  note p = stream_reports_failure_and_continues
  let ?next = "stream_at_A\<lparr>invoked := invoked stream_at_A @
                   [(current_node stream_at_A, Some (Exception ''boom''))],
                 current_node := ''B''\<rparr>"
  have h: "current_node stream_at_A \<noteq> exit_node failing_network \<and> (1::int) < 1000 \<and>
    current_node stream_at_A \<noteq> START \<and>
    nodes failing_network (current_node stream_at_A) = Some (mk_Node ''A'' (Some raise_boom) None None) \<and>
    node_call (mk_Node ''A'' (Some raise_boom) None None) (current_state stream_at_A) =
      Inl (Exception ''boom'') \<and>
    is_Exception (Exception ''boom'') \<and>
    get_next_node (edges failing_network) (current_node stream_at_A) (current_state stream_at_A) =
      Inr (Some ''B'')"
    by (simp add: stream_at_A_def net_defs node_call_def raise_boom_def get_next_node_def
          get_edges_from_def)
  have r: "fst (stream_loop failing_network 1000 (1 + 1) ?next) = [(''B'', [(''x'', PInt 1)])]"
    by (simp add: stream_at_A_def stream_defs net_defs)
  from p [where net=failing_network and l=stream_at_A and iteration=1 and max_iterations=1000
            and node="mk_Node ''A'' (Some raise_boom) None None" and e="Exception ''boom''"
            and next_node="''B''"] h
  have "stream_loop failing_network 1000 1 stream_at_A =
        (case stream_loop failing_network 1000 (1 + 1) ?next of
           (zs, r) \<Rightarrow> ((current_node stream_at_A, [(''error'', PStr (str (Exception ''boom'')))]) # zs, r))"
    by blast
  with r have 1: "fst (stream_loop failing_network 1000 1 stream_at_A) =
     [(''A'', [(''error'', PStr ''boom'')]), (''B'', [(''x'', PInt 1)])]"
    by (simp add: stream_at_A_def split: prod.splits)
  note q = p [where net=failing_network and initial_state="[]" and max_iterations=1000,
              THEN conjunct2, rule_format, OF failing_stream_run]
  have e: "exit_node failing_network = END"
    by (simp add: net_defs)
  from q have "(''A'', Some (Exception ''boom'')) \<in> set [(''A'', Some (Exception ''boom'')), (''B'', None)] \<and>
      is_Exception (Exception ''boom'') \<longrightarrow>
      (''A'', [(''error'', PStr (str (Exception ''boom'')))]) \<in>
        set [(START, [(''next_node'', PStr ''A'')]), (''A'', [(''error'', PStr ''boom'')]),
             (''B'', [(''x'', PInt 1)])]"
    by simp
  then have 2: "(''A'', [(''error'', PStr ''boom'')]) \<in> set (fst (stream_run failing_network [] 1000))"
    by (simp add: failing_stream_run)
  from q e have 3: "stream failing_network [] 1000 =
     ([(START, [(''next_node'', PStr ''A'')]), (''A'', [(''error'', PStr ''boom'')]),
       (''B'', [(''x'', PInt 1)]), (END, [(''x'', PInt 1)])], None) \<and>
   last (fst (stream failing_network [] 1000)) = (END, [(''x'', PInt 1)])"
    by simp
  from 1 2 3 show ?thesis
    by simp
qed

text \<open>
  The claim as it was written fails in two ways. With a node \<open>F\<close> set as finish point and an
  edge \<open>A \<rightarrow> END\<close>, the network is valid and the traversal reaches \<open>END\<close> in its third iteration,
  where the loop is left by \<^verbatim>\<open>break\<close>: no item is yielded for \<open>END\<close>. And when the callable of
  \<open>A\<close> raises \<^verbatim>\<open>SystemExit\<close>, the exception leaves the generator and no error item is yielded.
\<close>

theorem stream_custom_finish_counterexample:
  "validate custom_finish_network = Inr True \<and>
   stream_run custom_finish_network [] 1000 =
     ([(START, [(''next_node'', PStr ''A'')]), (''A'', [(''x'', PInt 1)])],
      \<lparr>current_state = [(''x'', PInt 1)], current_node = END, invoked = [(''A'', None)]\<rparr>, Broke) \<and>
   stream custom_finish_network [] 1000 =
     ([(START, [(''next_node'', PStr ''A'')]), (''A'', [(''x'', PInt 1)])], None) \<and>
   validate exiting_network = Inr True \<and>
   node_call (mk_Node ''A'' (Some exit_bye) None None) [] = Inl (SystemExit ''bye'') \<and>
   stream exiting_network [] 1000 =
     ([(START, [(''next_node'', PStr ''A'')])], Some (SystemExit ''bye''))"
proof -
  have 1: "validate custom_finish_network = Inr True" "validate exiting_network = Inr True"
    by (simp_all add: validate_def net_defs)
  have 2: "exit_node custom_finish_network = ''F''"
    by (simp add: net_defs)
  have 3: "stream custom_finish_network [] 1000 =
     ([(START, [(''next_node'', PStr ''A'')]), (''A'', [(''x'', PInt 1)])], None)"
    by (simp add: stream_def custom_finish_stream_run 2 END_def)
  have 4: "node_call (mk_Node ''A'' (Some exit_bye) None None) [] = Inl (SystemExit ''bye'')"
    by (simp add: node_call_def mk_Node_def exit_bye_def)
  have 5: "stream exiting_network [] 1000 =
     ([(START, [(''next_node'', PStr ''A'')])], Some (SystemExit ''bye''))"
    by (simp add: stream_defs net_defs)
  from 1 3 4 5 show ?thesis
    by (simp add: custom_finish_stream_run)
qed

subsection \<open>C3: the routing policy of \<^verbatim>\<open>get_next_node\<close>\<close>

text \<open>
  Claim C3, amended. Let the edges from \<open>src\<close> be taken in insertion order.
  If there is none, the result is \<^verbatim>\<open>None\<close>. If one of them is conditional, the result is what
  the first conditional one routes to (or the exception its condition raises), whatever the
  edges \<open>post\<close> after it are: they are not evaluated. If none is conditional, the result is the
  target of the first edge whose target is truthy (neither \<^verbatim>\<open>None\<close> nor the empty string), and
  \<^verbatim>\<open>None\<close> when no edge has such a target.
\<close>

theorem get_next_node_policy:
  "(get_edges_from es src = [] \<longrightarrow> get_next_node es src st = Inr None) \<and>
   (get_edges_from es src = pre @ e # post \<and> is_conditional e \<and> (\<forall>x\<in>set pre. \<not> is_conditional x)
      \<longrightarrow> get_next_node es src st = (case route e st of Inl x \<Rightarrow> Inl x | Inr t \<Rightarrow> Inr (Some t))) \<and>
   (get_edges_from es src = pre @ e # post \<and> (\<forall>x\<in>set (pre @ e # post). \<not> is_conditional x) \<and>
    truthy (target_node e) \<and> (\<forall>x\<in>set pre. \<not> truthy (target_node x))
      \<longrightarrow> get_next_node es src st = Inr (target_node e)) \<and>
   ((\<forall>x\<in>set (get_edges_from es src). \<not> is_conditional x \<and> \<not> truthy (target_node x))
      \<longrightarrow> get_next_node es src st = Inr None)"
proof (intro conjI impI)
  assume "get_edges_from es src = []"
  then show "get_next_node es src st = Inr None"
    by (simp add: get_next_node_def Let_def)
next
  assume a: "get_edges_from es src = pre @ e # post \<and> is_conditional e \<and>
    (\<forall>x\<in>set pre. \<not> is_conditional x)"
  then have "first_conditional (get_edges_from es src) = Some e"
    by (simp add: first_conditional_append)
  with a show "get_next_node es src st = (case route e st of Inl x \<Rightarrow> Inl x | Inr t \<Rightarrow> Inr (Some t))"
    by (simp add: get_next_node_def Let_def)
next
  assume a: "get_edges_from es src = pre @ e # post \<and>
    (\<forall>x\<in>set (pre @ e # post). \<not> is_conditional x) \<and>
    truthy (target_node e) \<and> (\<forall>x\<in>set pre. \<not> truthy (target_node x))"
  then have n: "first_conditional (get_edges_from es src) = None"
    by (simp add: first_conditional_none)
  from a have "first_simple (pre @ e # post) = first_simple (e # post)"
    by (intro first_simple_append) simp
  with a have "first_simple (get_edges_from es src) = target_node e"
    by simp
  with a n show "get_next_node es src st = Inr (target_node e)"
    by (simp add: get_next_node_def Let_def)
next
  assume a: "\<forall>x\<in>set (get_edges_from es src). \<not> is_conditional x \<and> \<not> truthy (target_node x)"
  then have "first_conditional (get_edges_from es src) = None"
    "first_simple (get_edges_from es src) = None"
    by (simp_all add: first_conditional_none first_simple_none)
  then show "get_next_node es src st = Inr None"
    by (simp add: get_next_node_def Let_def)
qed

text \<open>
  The four cases at concrete edge sets. In \<open>mixed_edges\<close> the second conditional edge raises
  whenever it is evaluated; it never is.
\<close>

theorem get_next_node_policy_witness:
  "get_next_node [] ''A'' [] = Inr None \<and>
   get_next_node mixed_edges ''A'' [(''mode'', PStr ''fast'')] = Inr (Some ''B'') \<and>
   get_next_node mixed_edges ''A'' [(''mode'', PStr ''slow'')] = Inr (Some ''A'') \<and>
   get_next_node mixed_edges ''A'' [] = Inl (Exception ''mode'') \<and>
   get_next_node two_static_edges ''A'' [] = Inr (Some ''B'') \<and>
   get_next_node [mk_Edge ''A'' None None None] ''A'' [] = Inr None"
proof -
  let ?c = "mk_Edge ''A'' None None (Some (routed_condition route_by_mode mode_targets))"
  let ?pre = "[mk_Edge ''A'' (Some ''C'') None None]"
  let ?post = "[mk_Edge ''A'' None None (Some raise_boom_condition)]"
  have h: "get_edges_from mixed_edges ''A'' = ?pre @ ?c # ?post \<and> is_conditional ?c \<and>
           (\<forall>x\<in>set ?pre. \<not> is_conditional x)"
    by (simp add: get_edges_from_def mixed_edges_def mk_Edge_def)
  have r: "route ?c st = routed_condition route_by_mode mode_targets st" for st
    by (simp add: route_def mk_Edge_def)
  let ?t = "mk_Edge ''A'' (Some ''B'') None None"
  let ?n = "mk_Edge ''A'' None None None"
  have s: "get_edges_from two_static_edges ''A'' = [?n] @ ?t # [] \<and>
           (\<forall>x\<in>set ([?n] @ ?t # []). \<not> is_conditional x) \<and>
           truthy (target_node ?t) \<and> (\<forall>x\<in>set [?n]. \<not> truthy (target_node x))"
    by (simp add: get_edges_from_def two_static_edges_def mk_Edge_def)
  have z: "\<forall>x\<in>set (get_edges_from [?n] ''A''). \<not> is_conditional x \<and> \<not> truthy (target_node x)"
    by (simp add: get_edges_from_def mk_Edge_def)
  have e: "get_edges_from [] ''A'' = []"
    by (simp add: get_edges_from_def)
  note p = get_next_node_policy
  from p [where es="[]" and src="''A''" and st="[]"] e
  have 1: "get_next_node [] ''A'' [] = Inr None"
    by blast
  from p [where es=mixed_edges and src="''A''" and pre="?pre" and e="?c" and post="?post"] h r
  have 2: "get_next_node mixed_edges ''A'' st =
             (case routed_condition route_by_mode mode_targets st of
                Inl x \<Rightarrow> Inl x | Inr t \<Rightarrow> Inr (Some t))" for st
    by simp
  from p [where es=two_static_edges and src="''A''" and pre="[?n]" and e="?t" and post="[]"
            and st="[]"] s
  have 3: "get_next_node two_static_edges ''A'' [] = Inr (Some ''B'')"
    by (simp add: mk_Edge_def)
  from p [where es="[?n]" and src="''A''" and st="[]"] z
  have 4: "get_next_node [?n] ''A'' [] = Inr None"
    by blast
  show ?thesis
    using 1 3 4
    by (simp add: 2 routed_condition_def route_by_mode_def mode_targets_def dict_get_def)
qed

text \<open>
  The claim as it was written fails where a static edge without target comes first: no edge
  from \<open>A\<close> is conditional, the first static edge from \<open>A\<close> has no target, and the result is the
  target \<open>B\<close> of the second.
\<close>

theorem get_next_node_first_static_counterexample:
  "first_conditional (get_edges_from two_static_edges ''A'') = None \<and>
   target_node (hd (get_edges_from two_static_edges ''A'')) = None \<and>
   get_next_node two_static_edges ''A'' [] = Inr (Some ''B'')"
  by (simp add: get_next_node_def get_edges_from_def two_static_edges_def mk_Edge_def)

subsection \<open>C4: the step of a failing call is not in the result\<close>

text \<open>
  Claim C4 does not hold of the code. On \<open>START \<rightarrow> A \<rightarrow> B \<rightarrow> END\<close>, where the callable of \<open>A\<close>
  raises \<^verbatim>\<open>Exception("boom")\<close>, the node \<open>A\<close> is called once. The step created for that call
  gets its error field set to \<^verbatim>\<open>boom\<close>, as the claim says, but the \<^verbatim>\<open>RuntimeError\<close> is raised
  before \<^verbatim>\<open>steps.append(step)\<close> is reached: the result of \<^verbatim>\<open>execute\<close> has the error message and
  an empty list of steps, so the failing invocation has no step record.
\<close>

theorem failing_step_not_recorded:
  "nodes failing_network ''A'' = Some (mk_Node ''A'' (Some raise_boom) None None) \<and>
   execute_node (mk_Node ''A'' (Some raise_boom) None None) tick_clock 2 at_node_A =
     Inl (at_node_A\<lparr>invoked := [(''A'', Some (Exception ''boom''))], clock_reads := 5\<rparr>,
          \<lparr>step_node_id = ''A'', timestamp = 3, state_before = Some [], state_after = None,
           step_error = Some ''boom'', duration_ms = 2000\<rparr>,
          RuntimeError ''Node A failed: boom'') \<and>
   invoked (fst (execute_run failing_network tick_clock [] 1000)) =
     [(''A'', Some (Exception ''boom''))] \<and>
   execute failing_network tick_clock [] 1000 =
     Inr \<lparr>final_state = [], steps = [], total_duration_ms = 5000, iterations = 2,
          error = Some ''Node A failed: boom'', completed = False\<rparr>"
proof -
  have 1: "nodes failing_network ''A'' = Some (mk_Node ''A'' (Some raise_boom) None None)"
    by (simp add: net_defs)
  have 2: "execute_node (mk_Node ''A'' (Some raise_boom) None None) tick_clock 2 at_node_A =
     Inl (at_node_A\<lparr>invoked := [(''A'', Some (Exception ''boom''))], clock_reads := 5\<rparr>,
          \<lparr>step_node_id = ''A'', timestamp = 3, state_before = Some [], state_after = None,
           step_error = Some ''boom'', duration_ms = 2000\<rparr>,
          RuntimeError ''Node A failed: boom'')"
    by (simp add: execute_node_def node_call_def Let_def at_node_A_def raise_boom_def
          tick_clock_def mk_Node_def)
  have 3: "invoked (fst (execute_run failing_network tick_clock [] 1000)) =
     [(''A'', Some (Exception ''boom''))]"
    by (simp add: failing_run)
  have 4: "execute failing_network tick_clock [] 1000 =
     Inr \<lparr>final_state = [], steps = [], total_duration_ms = 5000, iterations = 2,
          error = Some ''Node A failed: boom'', completed = False\<rparr>"
    by (simp add: execute_def failing_run tick_clock_def)
  from 1 2 3 4 show ?thesis
    by simp
qed

subsection \<open>C5: \<^verbatim>\<open>validate\<close> fails at the first dangling reference\<close>

text \<open>
  Claim C5, amended. The exception that \<^verbatim>\<open>validate\<close> raises is a \<^verbatim>\<open>ValueError\<close> (the
  specification calls it a graph validation error) whose message contains the offending id.
  The checks run in a fixed order and the first one that fails decides the message: the entry
  point, the exit point, then for each edge in insertion order its source and then its target.
  The target of an edge is checked only when it is truthy, that is neither \<^verbatim>\<open>None\<close> nor the empty
  string (\<open>bad_target\<close>). When no check fails \<^verbatim>\<open>validate\<close> returns \<^verbatim>\<open>True\<close> and \<^verbatim>\<open>compile\<close> returns
  the compiled workflow; when \<^verbatim>\<open>validate\<close> raises, \<^verbatim>\<open>compile\<close> raises the same exception.
\<close>

theorem validate_first_violation:
  "(entry_node net \<noteq> START \<and> nodes net (entry_node net) = None
      \<longrightarrow> validate net = Inl (ValueError (''Entry point '' @ entry_node net @ '' not found''))) \<and>
   ((entry_node net = START \<or> nodes net (entry_node net) \<noteq> None) \<and>
    exit_node net \<noteq> END \<and> nodes net (exit_node net) = None
      \<longrightarrow> validate net = Inl (ValueError (''Exit point '' @ exit_node net @ '' not found''))) \<and>
   ((entry_node net = START \<or> nodes net (entry_node net) \<noteq> None) \<and>
    (exit_node net = END \<or> nodes net (exit_node net) \<noteq> None) \<and>
    edges net = pre @ e # post \<and>
    (\<forall>x\<in>set pre. \<not> bad_source (nodes net) x \<and> \<not> bad_target (nodes net) x)
      \<longrightarrow> (bad_source (nodes net) e
             \<longrightarrow> validate net = Inl (ValueError (''Edge source '' @ source_node e @ '' not found''))) \<and>
          (\<not> bad_source (nodes net) e \<and> bad_target (nodes net) e
             \<longrightarrow> validate net =
                   Inl (ValueError (''Edge target '' @ the (target_node e) @ '' not found'')))) \<and>
   ((entry_node net = START \<or> nodes net (entry_node net) \<noteq> None) \<and>
    (exit_node net = END \<or> nodes net (exit_node net) \<noteq> None) \<and>
    (\<forall>x\<in>set (edges net). \<not> bad_source (nodes net) x \<and> \<not> bad_target (nodes net) x)
      \<longrightarrow> validate net = Inr True \<and>
          compile net = Inr \<lparr>compiled_network = net, engine = Some \<lparr>network = net\<rparr>\<rparr>) \<and>
   (\<forall>x. validate net = Inl x \<longrightarrow> compile net = Inl x)"
proof (intro conjI impI allI)
  assume "entry_node net \<noteq> START \<and> nodes net (entry_node net) = None"
  then show "validate net = Inl (ValueError (''Entry point '' @ entry_node net @ '' not found''))"
    by (simp add: validate_def)
next
  assume "(entry_node net = START \<or> nodes net (entry_node net) \<noteq> None) \<and>
    exit_node net \<noteq> END \<and> nodes net (exit_node net) = None"
  then show "validate net = Inl (ValueError (''Exit point '' @ exit_node net @ '' not found''))"
    by (auto simp: validate_def)
next
  assume a: "(entry_node net = START \<or> nodes net (entry_node net) \<noteq> None) \<and>
    (exit_node net = END \<or> nodes net (exit_node net) \<noteq> None) \<and>
    edges net = pre @ e # post \<and>
    (\<forall>x\<in>set pre. \<not> bad_source (nodes net) x \<and> \<not> bad_target (nodes net) x)"
    and b: "bad_source (nodes net) e"
  from a have "validate_edges (nodes net) (edges net) = validate_edges (nodes net) (e # post)"
    by (simp add: validate_edges_append)
  with a b show "validate net = Inl (ValueError (''Edge source '' @ source_node e @ '' not found''))"
    by (auto simp: validate_def)
next
  assume a: "(entry_node net = START \<or> nodes net (entry_node net) \<noteq> None) \<and>
    (exit_node net = END \<or> nodes net (exit_node net) \<noteq> None) \<and>
    edges net = pre @ e # post \<and>
    (\<forall>x\<in>set pre. \<not> bad_source (nodes net) x \<and> \<not> bad_target (nodes net) x)"
    and b: "\<not> bad_source (nodes net) e \<and> bad_target (nodes net) e"
  from a have "validate_edges (nodes net) (edges net) = validate_edges (nodes net) (e # post)"
    by (simp add: validate_edges_append)
  with a b show "validate net = Inl (ValueError (''Edge target '' @ the (target_node e) @ '' not found''))"
    by (auto simp: validate_def)
next
  assume a: "(entry_node net = START \<or> nodes net (entry_node net) \<noteq> None) \<and>
    (exit_node net = END \<or> nodes net (exit_node net) \<noteq> None) \<and>
    (\<forall>x\<in>set (edges net). \<not> bad_source (nodes net) x \<and> \<not> bad_target (nodes net) x)"
  then have "validate_edges (nodes net) (edges net) = Inr ()"
    by (simp add: validate_edges_ok)
  with a show v: "validate net = Inr True"
    by (auto simp: validate_def)
  then show "compile net = Inr \<lparr>compiled_network = net, engine = Some \<lparr>network = net\<rparr>\<rparr>"
    by (simp add: compile_validate)
next
  fix x assume "validate net = Inl x"
  then show "compile net = Inl x"
    by (simp add: compile_validate)
qed

text \<open>One network for each of the four kinds of violation, each with a later violation that is
  not reported, and a valid network.\<close>

theorem validate_first_violation_witness:
  "validate bad_entry_network = Inl (ValueError ''Entry point E not found'') \<and>
   compile bad_entry_network = Inl (ValueError ''Entry point E not found'') \<and>
   validate bad_exit_network = Inl (ValueError ''Exit point F not found'') \<and>
   validate bad_source_network = Inl (ValueError ''Edge source X not found'') \<and>
   validate bad_target_network = Inl (ValueError ''Edge target Y not found'') \<and>
   validate linear_network = Inr True \<and>
   compile linear_network =
     Inr \<lparr>compiled_network = linear_network, engine = Some \<lparr>network = linear_network\<rparr>\<rparr>"
proof -
  note p = validate_first_violation
  have 1: "validate bad_entry_network = Inl (ValueError ''Entry point E not found'')"
    using p [where net=bad_entry_network] by (simp add: net_defs)
  have 2: "compile bad_entry_network = Inl (ValueError ''Entry point E not found'')"
    using p [where net=bad_entry_network] 1 by blast
  have 3: "validate bad_exit_network = Inl (ValueError ''Exit point F not found'')"
    using p [where net=bad_exit_network] by (simp add: net_defs)
  have 4: "validate bad_source_network = Inl (ValueError ''Edge source X not found'')"
    using p [where net=bad_source_network and pre="edges linear_network"
               and e="mk_Edge ''X'' (Some ''Y'') None None"
               and post="[mk_Edge ''A'' (Some ''Z'') None None]"]
    by (simp add: net_defs)
  have 5: "validate bad_target_network = Inl (ValueError ''Edge target Y not found'')"
    using p [where net=bad_target_network and pre="edges linear_network"
               and e="mk_Edge ''A'' (Some ''Y'') None None"
               and post="[mk_Edge ''X'' (Some ''A'') None None]"]
    by (simp add: net_defs)
  have 6: "validate linear_network = Inr True \<and>
   compile linear_network =
     Inr \<lparr>compiled_network = linear_network, engine = Some \<lparr>network = linear_network\<rparr>\<rparr>"
    using p [where net=linear_network] by (simp add: net_defs)
  from 1 2 3 4 5 6 show ?thesis by simp
qed

text \<open>
  The claim as it was written fails for the empty string: the last edge of
  \<open>empty_target_network\<close> has a target that is not \<^verbatim>\<open>None\<close>, is not \<open>END\<close> and names no node, and
  \<^verbatim>\<open>validate\<close> succeeds.
\<close>

theorem validate_empty_target_counterexample:
  "target_node (last (edges empty_target_network)) = Some [] \<and>
   [] \<noteq> END \<and> nodes empty_target_network [] = None \<and>
   validate empty_target_network = Inr True"
  by (simp add: validate_def net_defs)

subsection \<open>C6: the resolver of a conditional edge\<close>

text \<open>
  Claim C6. \<^verbatim>\<open>add_conditional_edge\<close> appends one conditional edge to the edge set. Whenever the
  condition returns the key \<open>key\<close> on a state, that edge routes to \<open>target_map[key]\<close> if the key
  is present, otherwise to \<open>target_map["default"]\<close> if that entry is present, otherwise to
  \<open>END\<close>.
\<close>

theorem conditional_edge_resolves:
  "edges (add_conditional_edge net source cond target_map descr) =
     edges net @ [mk_Edge source None descr (Some (routed_condition cond target_map))] \<and>
   is_conditional (last (edges (add_conditional_edge net source cond target_map descr))) \<and>
   (cond state = Inr key \<longrightarrow>
      (target_map key = Some t \<longrightarrow>
         route (last (edges (add_conditional_edge net source cond target_map descr))) state = Inr t) \<and>
      (target_map key = None \<and> target_map ''default'' = Some d \<longrightarrow>
         route (last (edges (add_conditional_edge net source cond target_map descr))) state = Inr d) \<and>
      (target_map key = None \<and> target_map ''default'' = None \<longrightarrow>
         route (last (edges (add_conditional_edge net source cond target_map descr))) state = Inr END))"
  by (simp add: add_conditional_edge_def add_edge_set_def mk_Edge_def route_def routed_condition_def)

text \<open>A key that is present, a missing key with a default entry, and a missing key without.\<close>

theorem conditional_edge_resolves_witness:
  "route (last (edges (add_conditional_edge linear_network ''A'' route_by_mode mode_targets None)))
     [(''mode'', PStr ''fast'')] = Inr ''B'' \<and>
   route (last (edges (add_conditional_edge linear_network ''A'' route_by_mode mode_targets None)))
     [(''mode'', PStr ''slow'')] = Inr ''A'' \<and>
   route (last (edges (add_conditional_edge linear_network ''A'' route_by_mode Map.empty None)))
     [(''mode'', PStr ''slow'')] = Inr END"
proof -
  have f: "route_by_mode [(''mode'', PStr ''fast'')] = Inr ''fast''"
    and s: "route_by_mode [(''mode'', PStr ''slow'')] = Inr ''slow''"
    by (simp_all add: route_by_mode_def dict_get_def)
  have m: "mode_targets ''fast'' = Some ''B''" "mode_targets ''slow'' = None"
    "mode_targets ''default'' = Some ''A''"
    by (simp_all add: mode_targets_def)
  note p = conditional_edge_resolves
  from p [where cond=route_by_mode and target_map=mode_targets and key="''fast''" and t="''B''"
            and state="[(''mode'', PStr ''fast'')]" and net=linear_network and source="''A''" and descr=None] f m
  have 1: "route (last (edges (add_conditional_edge linear_network ''A'' route_by_mode mode_targets None)))
     [(''mode'', PStr ''fast'')] = Inr ''B''" by blast
  from p [where cond=route_by_mode and target_map=mode_targets and key="''slow''" and d="''A''"
            and state="[(''mode'', PStr ''slow'')]" and net=linear_network and source="''A''" and descr=None] s m
  have 2: "route (last (edges (add_conditional_edge linear_network ''A'' route_by_mode mode_targets None)))
     [(''mode'', PStr ''slow'')] = Inr ''A''" by blast
  from p [where cond=route_by_mode and target_map=Map.empty and key="''slow''"
            and state="[(''mode'', PStr ''slow'')]" and net=linear_network and source="''A''" and descr=None] s
  have 3: "route (last (edges (add_conditional_edge linear_network ''A'' route_by_mode Map.empty None)))
     [(''mode'', PStr ''slow'')] = Inr END" by blast
  from 1 2 3 show ?thesis by simp
qed

subsection \<open>C7: halting without reaching the exit\<close>

text \<open>
  Claim C7, amended. The loop of \<^verbatim>\<open>execute\<close> can be left without an exception in two ways. By
  \<^verbatim>\<open>break\<close>: then routing from the node the loop stopped at, on the final state, yields no next
  node, \<^verbatim>\<open>execute\<close> returns a result with \<open>completed = False\<close> and no error, and the counter is
  at least 1 and at most \<open>max_iterations\<close>. Or by its condition: if the current node is then
  not the exit node, the iteration bound was reached, \<^verbatim>\<open>execute\<close> returns a result with
  \<open>completed = False\<close> and no error, and the counter is at least the bound (equal to it when
  the bound is not negative). So a result that is incomplete, without error and with a
  counter below the bound comes from a routing halt; a routing halt in the last permitted
  iteration leaves the counter at the bound as well and is not told apart from an exhausted
  budget. With \<open>max_iterations = 0\<close> and an entry node other than the exit node the result has
  \<open>completed = False\<close>, \<open>iterations = 0\<close> and the initial state as final state.
\<close>

theorem execute_halts_incomplete:
  assumes run: "execute_run net clock initial_state max_iterations = (l, iteration, ex)"
  shows "(ex = Broke \<longrightarrow>
            (\<exists>nn. get_next_node (edges net) (current_node l) (current_state l) = Inr nn \<and> \<not> truthy nn) \<and>
            (\<exists>r. execute net clock initial_state max_iterations = Inr r \<and>
                 \<not> completed r \<and> error r = None \<and>
                 1 \<le> iterations r \<and> iterations r \<le> max_iterations)) \<and>
         (ex = Finished \<and> current_node l \<noteq> exit_node net \<longrightarrow>
            (\<exists>r. execute net clock initial_state max_iterations = Inr r \<and>
                 \<not> completed r \<and> error r = None \<and>
                 max_iterations \<le> iterations r \<and>
                 (0 \<le> max_iterations \<longrightarrow> iterations r = max_iterations))) \<and>
         (\<forall>r. execute net clock initial_state max_iterations = Inr r \<and>
              \<not> completed r \<and> error r = None \<and> iterations r < max_iterations \<longrightarrow>
              ex = Broke) \<and>
         (max_iterations = 0 \<and> entry_node net \<noteq> exit_node net \<longrightarrow>
            ex = Finished \<and>
            (\<exists>r. execute net clock initial_state max_iterations = Inr r \<and>
                 \<not> completed r \<and> error r = None \<and> iterations r = 0 \<and>
                 final_state r = initial_state))"
proof -
  from run
  have loop: "execute_loop net clock max_iterations 0 (execute_init net initial_state) = (l, iteration, ex)"
    by (simp add: execute_run_def)
  note x = execute_loop_exit [OF loop]
  have res: "execute net clock initial_state max_iterations = execute_result net clock (l, iteration, ex)"
    by (simp add: execute_def run)
  have z: "l = execute_init net initial_state \<and> iteration = 0 \<and> ex = Finished"
    if "max_iterations = 0"
    using loop that by (simp add: execute_loop.simps)
  have a: ?thesis if "ex = Broke"
    unfolding res using that x z by auto
  have b: ?thesis if "ex = Finished"
    unfolding res using that x z by (auto simp: execute_init_def)
  have c: ?thesis if "ex = Raised e" for e
    unfolding res using that z by auto
  show ?thesis
  proof (cases ex)
    case Finished
    then show ?thesis by (rule b)
  next
    case Broke
    then show ?thesis by (rule a)
  next
    case (Raised e)
    then show ?thesis by (rule c)
  qed
qed

text \<open>
  A network with no edge from its only node (routing halts after 2 iterations), a network
  that loops on one node (the bound 3 is reached), and the bound 0.
\<close>

theorem execute_halts_incomplete_witness:
  "(\<exists>r. execute dead_end_network tick_clock [] 1000 = Inr r \<and>
        \<not> completed r \<and> error r = None \<and> 1 \<le> iterations r \<and> iterations r \<le> 1000) \<and>
   (\<exists>r. execute looping_network tick_clock [] 3 = Inr r \<and>
        \<not> completed r \<and> error r = None \<and> iterations r = 3) \<and>
   (\<exists>r. execute linear_network tick_clock [(''y'', PInt 7)] 0 = Inr r \<and>
        \<not> completed r \<and> error r = None \<and> iterations r = 0 \<and>
        final_state r = [(''y'', PInt 7)])"
proof -
  note p = execute_halts_incomplete
  have 1: "\<exists>r. execute dead_end_network tick_clock [] 1000 = Inr r \<and>
        \<not> completed r \<and> error r = None \<and> 1 \<le> iterations r \<and> iterations r \<le> 1000"
    using p [OF dead_end_run] by simp
  obtain l it ex where r: "execute_run looping_network tick_clock [] 3 = (l, it, ex)"
    by (cases "execute_run looping_network tick_clock [] 3")
  with looping_run have "ex = Finished \<and> current_node l \<noteq> exit_node looping_network"
    by (simp add: net_defs)
  with p [OF r] have 2: "\<exists>r. execute looping_network tick_clock [] 3 = Inr r \<and>
        \<not> completed r \<and> error r = None \<and> iterations r = 3"
    by auto
  obtain l' it' ex' where r': "execute_run linear_network tick_clock [(''y'', PInt 7)] 0 = (l', it', ex')"
    by (cases "execute_run linear_network tick_clock [(''y'', PInt 7)] 0")
  have "entry_node linear_network \<noteq> exit_node linear_network"
    by (simp add: net_defs)
  with p [OF r'] have 3: "\<exists>r. execute linear_network tick_clock [(''y'', PInt 7)] 0 = Inr r \<and>
        \<not> completed r \<and> error r = None \<and> iterations r = 0 \<and>
        final_state r = [(''y'', PInt 7)]"
    by simp
  from 1 2 3 show ?thesis by simp
qed

text \<open>
  The claim as it was written says that the counter tells the two halting reasons apart. With
  the bound 2, the network with no edge from \<open>A\<close> halts by \<^verbatim>\<open>break\<close> and the network that loops
  on \<open>A\<close> halts by the bound, both in the second iteration, and \<^verbatim>\<open>execute\<close> returns the same
  result for both.
\<close>

theorem execute_halts_same_counter_counterexample:
  "snd (snd (execute_run dead_end_network tick_clock [] 2)) = Broke \<and>
   snd (snd (execute_run looping_network tick_clock [] 2)) = Finished \<and>
   execute dead_end_network tick_clock [] 2 = execute looping_network tick_clock [] 2 \<and>
   execute looping_network tick_clock [] 2 =
     Inr \<lparr>final_state = [(''x'', PInt 1)],
          steps = [\<lparr>step_node_id = ''A'', timestamp = 3, state_before = Some [],
                    state_after = Some [(''x'', PInt 1)], step_error = None,
                    duration_ms = 2000\<rparr>],
          total_duration_ms = 5000, iterations = 2, error = None, completed = False\<rparr>"
proof -
  have "exit_node dead_end_network = END" and "exit_node looping_network = END"
    by (simp_all add: net_defs)
  then show ?thesis
    by (simp add: execute_def dead_end_run_2 looping_run_2 tick_clock_def END_def)
qed

subsection \<open>C8: two calls of \<^verbatim>\<open>invoke\<close> agree\<close>

text \<open>
  Claim C8. Node callables and edge conditions are functions of the state, \<^verbatim>\<open>execute\<close> works
  on its own copy of the initial state and keeps nothing from one call to the next, so two
  calls of \<^verbatim>\<open>invoke\<close> on the same compiled workflow with the same initial state and bound can
  differ only in what the clock reads during each of them. Whatever the two clocks read,
  both calls return the same final state and call the same nodes in the same order.
\<close>

theorem invoke_deterministic:
  "invoke cw clock1 initial_state max_iterations = invoke cw clock2 initial_state max_iterations \<and>
   invoke_visits cw clock1 initial_state max_iterations =
     invoke_visits cw clock2 initial_state max_iterations"
proof (cases "engine cw")
  case None
  then show ?thesis
    by (simp add: invoke_def invoke_visits_def)
next
  case (Some eng)
  let ?r1 = "execute_run (network eng) clock1 initial_state max_iterations"
  let ?r2 = "execute_run (network eng) clock2 initial_state max_iterations"
  from execute_run_clock [of "network eng" clock1 initial_state max_iterations clock2]
  have w: "walk_of (fst ?r1) = walk_of (fst ?r2)" and x: "snd ?r1 = snd ?r2"
    by (metis fst_map_prod, metis snd_map_prod id_apply)
  have "(case execute (network eng) clock1 initial_state max_iterations of
           Inl e \<Rightarrow> Inl e | Inr result \<Rightarrow> Inr (final_state result)) =
        (case execute (network eng) clock2 initial_state max_iterations of
           Inl e \<Rightarrow> Inl e | Inr result \<Rightarrow> Inr (final_state result))"
    unfolding invoke_execute w x by (rule refl)
  with Some w show ?thesis
    by (simp add: invoke_def invoke_visits_def invoked_walk_of)
qed

text \<open>The linear network under a running clock and under a clock that stands still.\<close>

theorem invoke_deterministic_witness:
  "invoke compiled_linear tick_clock [] 10 = invoke compiled_linear zero_clock [] 10 \<and>
   invoke compiled_linear zero_clock [] 10 = Inr [(''x'', PInt 1)] \<and>
   invoke_visits compiled_linear zero_clock [] 10 = [''A'']"
proof -
  have "invoke compiled_linear tick_clock [] 10 = Inr [(''x'', PInt 1)]"
    and "invoke_visits compiled_linear tick_clock [] 10 = [''A'']"
    by (simp_all add: invoke_def invoke_visits_def compiled_linear_def run_defs net_defs)
  with invoke_deterministic [of compiled_linear tick_clock "[]" 10 zero_clock] show ?thesis
    by simp
qed

subsection \<open>C9: the item that \<^verbatim>\<open>stream\<close> yields for \<open>START\<close>\<close>

text \<open>
  Claim C9, amended. For every network whose entry node is \<open>START\<close> and whose exit node is not,
  every bound of at least one iteration and every initial state on which routing from \<open>START\<close>
  resolves to a non-empty node id \<open>n\<close>, the first item that \<^verbatim>\<open>stream\<close> yields is
  \<open>(START, {"next_node": n})\<close>. No callable runs for it: the items of the loop are the items of
  \<open>START\<close> and one item for each node call that returned or raised an \<^verbatim>\<open>Exception\<close>. If moreover
  no routing step leads to \<open>START\<close>, there is exactly one item of \<open>START\<close>: the loop yields one
  item more than such node calls, and \<^verbatim>\<open>stream\<close> as a whole yields one more item again, the
  final item of the exit node, when the loop ends there.
\<close>

theorem stream_first_item:
  assumes "entry_node net = START" and "exit_node net \<noteq> START" and "1 \<le> max_iterations"
    and "get_next_node (edges net) START initial_state = Inr (Some n)" and "n \<noteq> []"
  shows "(\<exists>rest. fst (stream net initial_state max_iterations) =
            (START, [(''next_node'', PStr n)]) # rest) \<and>
         (\<forall>ys lf ex. stream_run net initial_state max_iterations = (ys, lf, ex) \<longrightarrow>
            length ys = length (filter (\<lambda>i. fst i = START) ys) +
                        length (filter yields_item (invoked lf)) \<and>
            ((\<forall>src st. get_next_node (edges net) src st \<noteq> Inr (Some START)) \<longrightarrow>
               length ys = 1 + length (filter yields_item (invoked lf)) \<and>
               length (fst (stream net initial_state max_iterations)) =
                 1 + length (filter yields_item (invoked lf)) +
                 (if (ex = Finished \<or> ex = Broke) \<and> current_node lf = exit_node net then 1 else 0)))"
proof (intro conjI allI impI)
  let ?l0 = "stream_init net initial_state"
  let ?l1 = "?l0\<lparr>current_node := n\<rparr>"
  obtain zs lz ez where rest: "stream_loop net max_iterations 1 ?l1 = (zs, lz, ez)"
    by (cases "stream_loop net max_iterations 1 ?l1")
  from assms have body: "stream_body net ?l0 = ([(START, [(''next_node'', PStr n)])], Continue ?l1)"
    by (simp add: stream_body_def stream_init_def)
  from assms have "current_node ?l0 \<noteq> exit_node net \<and> 0 < max_iterations"
    by (simp add: stream_init_def)
  with body rest
  have run: "stream_run net initial_state max_iterations =
               ((START, [(''next_node'', PStr n)]) # zs, lz, ez)"
    by (simp add: stream_run_def stream_loop.simps [of net max_iterations 0])
  show "\<exists>rest. fst (stream net initial_state max_iterations) = (START, [(''next_node'', PStr n)]) # rest"
    by (cases ez) (simp_all add: stream_def run)
  fix ys lf ex
  assume r: "stream_run net initial_state max_iterations = (ys, lf, ex)"
  then have "stream_loop net max_iterations 0 (stream_init net initial_state) = (ys, lf, ex)"
    by (simp add: stream_run_def)
  from stream_loop_log [OF this]
  show count: "length ys = length (filter (\<lambda>i. fst i = START) ys) +
                      length (filter yields_item (invoked lf))"
    by (auto simp: stream_init_def)
  assume no_return: "\<forall>src st. get_next_node (edges net) src st \<noteq> Inr (Some START)"
  with assms(4) have "n \<noteq> START"
    by auto
  then have "current_node ?l1 \<noteq> START"
    by simp
  from stream_loop_no_START [OF rest no_return this]
  have "filter (\<lambda>i. fst i = START) zs = []" .
  with run r have one: "length (filter (\<lambda>i. fst i = START) ys) = 1"
    by auto
  with count show c1: "length ys = 1 + length (filter yields_item (invoked lf))"
    by simp
  from r c1 show "length (fst (stream net initial_state max_iterations)) =
                 1 + length (filter yields_item (invoked lf)) +
                 (if (ex = Finished \<or> ex = Broke) \<and> current_node lf = exit_node net then 1 else 0)"
    by (cases ex) (simp_all add: stream_def)
qed

text \<open>
  The linear network: the item of \<open>START\<close>, the item of the one node called, and the final
  item.
\<close>

theorem stream_first_item_witness:
  "hd (fst (stream linear_network [] 1000)) = (START, [(''next_node'', PStr ''A'')]) \<and>
   length (fst (stream_run linear_network [] 1000)) = 2 \<and>
   invoked (fst (snd (stream_run linear_network [] 1000))) = [(''A'', None)] \<and>
   length (fst (stream linear_network [] 1000)) = 3"
proof -
  have h: "entry_node linear_network = START" "exit_node linear_network \<noteq> START" "(1::int) \<le> 1000"
    "get_next_node (edges linear_network) START [] = Inr (Some ''A'')" "''A'' \<noteq> []"
    by (simp_all add: net_defs get_next_node_def get_edges_from_def)
  have n: "\<forall>src st. get_next_node (edges linear_network) src st \<noteq> Inr (Some START)"
    by (simp add: net_defs get_next_node_def get_edges_from_def route_def)
  have x: "exit_node linear_network = END"
    by (simp add: net_defs)
  have r: "stream_run linear_network [] 1000 =
     ([(START, [(''next_node'', PStr ''A'')]), (''A'', [(''x'', PInt 1)])],
      \<lparr>current_state = [(''x'', PInt 1)], current_node = END, invoked = [(''A'', None)]\<rparr>, Finished)"
    by (simp add: stream_defs net_defs)
  from stream_first_item [OF h] r n x show ?thesis
    by (auto simp: yields_item_def)
qed

text \<open>
  The claim as it was written fails in five ways, each on a network that passes \<^verbatim>\<open>validate\<close>.
  With a static edge from \<open>START\<close> that has no target, routing yields nothing and \<^verbatim>\<open>stream\<close> ends
  without any item. With a conditional edge from \<open>START\<close> whose condition raises on the initial
  state, the exception leaves the generator before any item. With a conditional edge from
  \<open>START\<close> that resolves to the empty string, the loop is left by \<^verbatim>\<open>break\<close> without any item. With a node whose id is that of
  \<open>START\<close> set as finish point, the loop is not entered and the only item is \<open>START\<close> with the
  full state. And where a conditional edge leads back to \<open>START\<close>, the bound 4 gives two items
  of \<open>START\<close> for two node calls and no final item.
\<close>

theorem stream_first_item_counterexample:
  "entry_node start_no_target_network = START \<and>
   length (get_edges_from (edges start_no_target_network) START) = 1 \<and>
   validate start_no_target_network = Inr True \<and>
   stream start_no_target_network [] 1 = ([], None) \<and>
   entry_node start_by_mode_network = START \<and>
   length (get_edges_from (edges start_by_mode_network) START) = 1 \<and>
   validate start_by_mode_network = Inr True \<and>
   stream start_by_mode_network [] 1 = ([], Some (Exception ''mode'')) \<and>
   entry_node start_to_empty_network = START \<and>
   validate start_to_empty_network = Inr True \<and>
   get_next_node (edges start_to_empty_network) START [] = Inr (Some []) \<and>
   stream start_to_empty_network [] 1 = ([], None) \<and>
   entry_node start_is_exit_network = START \<and>
   exit_node start_is_exit_network = START \<and>
   get_next_node (edges start_is_exit_network) START [(''y'', PInt 7)] = Inr (Some ''A'') \<and>
   validate start_is_exit_network = Inr True \<and>
   stream start_is_exit_network [(''y'', PInt 7)] 1000 = ([(START, [(''y'', PInt 7)])], None) \<and>
   entry_node back_to_start_network = START \<and>
   validate back_to_start_network = Inr True \<and>
   get_next_node (edges back_to_start_network) START [] = Inr (Some ''A'') \<and>
   invoked (fst (snd (stream_run back_to_start_network [] 4))) = [(''A'', None), (''A'', None)] \<and>
   stream back_to_start_network [] 4 =
     ([(START, [(''next_node'', PStr ''A'')]), (''A'', [(''x'', PInt 1)]),
       (START, [(''next_node'', PStr ''A'')]), (''A'', [(''x'', PInt 1)])], None)"
  by (simp add: stream_defs validate_def net_defs cond_defs)

subsection \<open>C10: what a node returns to the engine\<close>

text \<open>
  Claim C10. A node without callable returns the empty update mapping; so does a node whose
  callable returns \<^verbatim>\<open>None\<close>. When the callable returns a value \<open>v\<close> that is neither \<^verbatim>\<open>None\<close> nor
  a dictionary, the node returns \<open>{"result": v}\<close>; \<^verbatim>\<open>execute\<close> then stores \<open>v\<close> under the key
  \<^verbatim>\<open>result\<close> of the current state and logs the call as a success, not as an error.
\<close>

theorem node_call_conventions:
  "(func nd = None \<longrightarrow> node_call nd state = Inr []) \<and>
   (func nd = Some f \<and> f state = Inr PNone \<longrightarrow> node_call nd state = Inr []) \<and>
   (func nd = Some f \<and> f state = Inr v \<and> v \<noteq> PNone \<and> (\<forall>d. v \<noteq> PDict d) \<longrightarrow>
      node_call nd state = Inr [(''result'', v)] \<and>
      (\<forall>clock step_start l. current_state l = state \<longrightarrow>
         (\<exists>l'. execute_node nd clock step_start l = Inr l' \<and>
               current_state l' = dict_set ''result'' v state \<and>
               dict_get (current_state l') ''result'' = Some v \<and>
               invoked l' = invoked l @ [(current_node l, None)])))"
proof (intro conjI impI)
  assume "func nd = None"
  then show "node_call nd state = Inr []"
    by (simp add: node_call_def)
next
  assume "func nd = Some f \<and> f state = Inr PNone"
  then show "node_call nd state = Inr []"
    by (simp add: node_call_def)
next
  assume a: "func nd = Some f \<and> f state = Inr v \<and> v \<noteq> PNone \<and> (\<forall>d. v \<noteq> PDict d)"
  then show r: "node_call nd state = Inr [(''result'', v)]"
    by (cases v) (simp_all add: node_call_def)
  show "\<forall>clock step_start l. current_state l = state \<longrightarrow>
         (\<exists>l'. execute_node nd clock step_start l = Inr l' \<and>
               current_state l' = dict_set ''result'' v state \<and>
               dict_get (current_state l') ''result'' = Some v \<and>
               invoked l' = invoked l @ [(current_node l, None)])"
    using r by (auto simp: execute_node_def Let_def dict_get_dict_set)
qed

text \<open>
  The three kinds of node on a state, and a run of \<open>START \<rightarrow> A \<rightarrow> END\<close> whose node returns
  the integer 42.
\<close>

theorem node_call_conventions_witness:
  "node_call (mk_Node ''A'' None None None) [(''y'', PInt 7)] = Inr [] \<and>
   node_call (mk_Node ''A'' (Some return_none) None None) [(''y'', PInt 7)] = Inr [] \<and>
   node_call (mk_Node ''A'' (Some return_42) None None) [(''y'', PInt 7)] = Inr [(''result'', PInt 42)] \<and>
   execute answer_network tick_clock [(''y'', PInt 7)] 1000 =
     Inr \<lparr>final_state = [(''y'', PInt 7), (''result'', PInt 42)],
          steps = [\<lparr>step_node_id = ''A'', timestamp = 3, state_before = Some [(''y'', PInt 7)],
                    state_after = Some [(''y'', PInt 7), (''result'', PInt 42)],
                    step_error = None, duration_ms = 2000\<rparr>],
          total_duration_ms = 5000, iterations = 2, error = None, completed = True\<rparr>"
proof -
  note p = node_call_conventions
  have 1: "node_call (mk_Node ''A'' None None None) [(''y'', PInt 7)] = Inr []"
    using p [where nd="mk_Node ''A'' None None None" and state="[(''y'', PInt 7)]"]
    by (simp add: mk_Node_def)
  have 2: "node_call (mk_Node ''A'' (Some return_none) None None) [(''y'', PInt 7)] = Inr []"
    using p [where nd="mk_Node ''A'' (Some return_none) None None" and state="[(''y'', PInt 7)]"
               and f=return_none]
    by (simp add: mk_Node_def return_none_def)
  have 3: "node_call (mk_Node ''A'' (Some return_42) None None) [(''y'', PInt 7)] =
             Inr [(''result'', PInt 42)]"
    using p [where nd="mk_Node ''A'' (Some return_42) None None" and state="[(''y'', PInt 7)]"
               and f=return_42 and v="PInt 42"]
    by (simp add: mk_Node_def return_42_def)
  have 4: "execute answer_network tick_clock [(''y'', PInt 7)] 1000 =
     Inr \<lparr>final_state = [(''y'', PInt 7), (''result'', PInt 42)],
          steps = [\<lparr>step_node_id = ''A'', timestamp = 3, state_before = Some [(''y'', PInt 7)],
                    state_after = Some [(''y'', PInt 7), (''result'', PInt 42)],
                    step_error = None, duration_ms = 2000\<rparr>],
          total_duration_ms = 5000, iterations = 2, error = None, completed = True\<rparr>"
    by (simp add: run_defs net_defs)
  from 1 2 3 4 show ?thesis by simp
qed

end
